theory Spec2Isabelle
  imports Main "HOL-Library.Sublist"
begin

section \<open>Python values\<close>

text \<open>
  The agent is written in Python. Strings are modelled as \<open>string\<close> (one \<open>char\<close>
  per code point, which restricts the model to 8-bit code points; every property below
  only depends on lengths, prefixes and substrings). Values of static type \<open>Any\<close> (the
  arguments of a tool call, the entries of a result dictionary) are \<open>pyval\<close>; floats
  are left out. A dictionary with string keys is an association list read with
  \<open>map_of\<close>, which keeps the insertion order that \<open>json.dumps\<close> prints.
  An exception is represented by the text \<open>str(e)\<close> of its message.
\<close>

datatype pyval =
    PNone
  | PBool bool
  | PInt int
  | PStr string
  | PList "pyval list"
  | PDict "(string \<times> pyval) list"

type_synonym pydict = "(string \<times> pyval) list"

type_synonym exn = string

section \<open>Context manager (src/context/manager.py)\<close>

text \<open>
  A message is a dictionary with the keys \<open>role\<close> and \<open>content\<close>. Message dictionaries
  are mutable objects that the history deque and the lists returned by \<open>get_messages\<close>
  share, so they live in a store: an address is allocated for every dictionary literal
  the code evaluates, and lists hold addresses.
\<close>

record message =
  role :: string
  content :: string

type_synonym addr = nat

type_synonym store = "addr \<Rightarrow> message"

text \<open>
  \<open>max_tokens\<close> and \<open>sliding_window_size\<close> come from \<open>context_config\<close>. The constructor
  builds \<open>deque(maxlen=sliding_window_size * 2)\<close>, which raises for a negative length, so
  a context manager that exists has a natural window size. \<open>count_tokens\<close> is
  \<open>LLMClient.count_tokens\<close>: a tokenizer call that falls back to \<open>len(text) // 4\<close>; in
  both cases a length computed from the text alone.
\<close>

record context_manager =
  max_tokens :: int
  sliding_window_size :: nat
  count_tokens :: "string \<Rightarrow> nat"
  objects :: store
  next_addr :: addr
  message_history :: "addr list"
  system_message :: addr

definition alloc :: "context_manager \<Rightarrow> message \<Rightarrow> addr \<times> context_manager" where
  "alloc cm m =
     (next_addr cm,
      cm\<lparr>objects := (objects cm)(next_addr cm := m), next_addr := Suc (next_addr cm)\<rparr>)"

text \<open>\<open>deque.append\<close> on a deque with \<open>maxlen = n\<close>: a full deque drops from the left.\<close>

definition deque_append :: "nat \<Rightarrow> 'a list \<Rightarrow> 'a \<Rightarrow> 'a list" where
  "deque_append n xs x = (let ys = xs @ [x] in drop (length ys - n) ys)"

definition new_context_manager :: "int \<Rightarrow> nat \<Rightarrow> (string \<Rightarrow> nat) \<Rightarrow> context_manager" where
  "new_context_manager mt w ct =
     \<lparr>max_tokens = mt, sliding_window_size = w, count_tokens = ct,
      objects = (\<lambda>_. \<lparr>role = ''system'', content = ''''\<rparr>),
      next_addr = 1, message_history = [], system_message = 0\<rparr>"

definition set_system_message :: "context_manager \<Rightarrow> string \<Rightarrow> context_manager" where
  "set_system_message cm c =
     (let (a, cm') = alloc cm \<lparr>role = ''system'', content = c\<rparr>
      in cm'\<lparr>system_message := a\<rparr>)"

definition append_message :: "context_manager \<Rightarrow> message \<Rightarrow> context_manager" where
  "append_message cm m =
     (let (a, cm') = alloc cm m
      in cm'\<lparr>message_history :=
               deque_append (sliding_window_size cm * 2) (message_history cm) a\<rparr>)"

definition add_user_message :: "context_manager \<Rightarrow> string \<Rightarrow> context_manager" where
  "add_user_message cm c = append_message cm \<lparr>role = ''user'', content = c\<rparr>"

definition add_assistant_message :: "context_manager \<Rightarrow> string \<Rightarrow> context_manager" where
  "add_assistant_message cm c = append_message cm \<lparr>role = ''assistant'', content = c\<rparr>"

definition tool_result_content :: "string \<Rightarrow> string \<Rightarrow> string" where
  "tool_result_content tool_name result = ''TOOL RESULT ['' @ tool_name @ '']: '' @ result"

definition add_tool_result :: "context_manager \<Rightarrow> string \<Rightarrow> string \<Rightarrow> context_manager" where
  "add_tool_result cm tool_name result =
     append_message cm \<lparr>role = ''user'', content = tool_result_content tool_name result\<rparr>"

definition clear_history :: "context_manager \<Rightarrow> context_manager" where
  "clear_history cm = cm\<lparr>message_history := []\<rparr>"

definition count_messages_tokens :: "(string \<Rightarrow> nat) \<Rightarrow> store \<Rightarrow> addr list \<Rightarrow> nat" where
  "count_messages_tokens ct h messages =
     foldl (\<lambda>total msg. total + ct (content (h msg))) 0 messages"

text \<open>The first loop of \<open>_compress_messages\<close>: the last system message, and the others in order.\<close>

definition split_messages :: "store \<Rightarrow> addr list \<Rightarrow> addr option \<times> addr list" where
  "split_messages h messages =
     foldl (\<lambda>(system_msg, other_msgs) msg.
              if role (h msg) = ''system'' then (Some msg, other_msgs)
              else (system_msg, other_msgs @ [msg]))
           (None, []) messages"

text \<open>
  The slice \<open>xs[-n:]\<close> for \<open>n \<ge> 0\<close>: the last \<open>n\<close> elements, except that \<open>-0\<close> is \<open>0\<close> and
  \<open>xs[0:]\<close> is the whole list.
\<close>

definition slice_last :: "nat \<Rightarrow> 'a list \<Rightarrow> 'a list" where
  "slice_last n xs = (if n = 0 then xs else drop (length xs - n) xs)"

definition is_tool_result :: "string \<Rightarrow> bool" where
  "is_tool_result c = prefix ''TOOL RESULT'' c"

definition truncated :: "string \<Rightarrow> string" where
  "truncated c = take 4500 c @ ''... [truncated]''"

text \<open>One pass of the body of the truncation loop, on the message object at \<open>msg\<close>.\<close>

definition truncate_message :: "store \<Rightarrow> addr \<Rightarrow> store" where
  "truncate_message h msg =
     (if role (h msg) \<noteq> ''system'' then
        (let c = content (h msg) in
         if \<not> is_tool_result c then
           (if length c > 5000 then h(msg := (h msg)\<lparr>content := truncated c\<rparr>) else h)
         else h)
      else h)"

definition compress_messages ::
  "context_manager \<Rightarrow> addr list \<Rightarrow> addr list \<times> context_manager" where
  "compress_messages cm messages =
     (let (system_msg, other_msgs) = split_messages (objects cm) messages;
          recent_msgs = slice_last (sliding_window_size cm) other_msgs;
          compressed = (case system_msg of None \<Rightarrow> [] | Some s \<Rightarrow> [s]) @ recent_msgs;
          total_tokens = count_messages_tokens (count_tokens cm) (objects cm) compressed
      in if int total_tokens > max_tokens cm
         then (compressed, cm\<lparr>objects := foldl truncate_message (objects cm) compressed\<rparr>)
         else (compressed, cm))"

definition get_messages :: "context_manager \<Rightarrow> bool \<Rightarrow> addr list \<times> context_manager" where
  "get_messages cm include_system =
     (let messages =
            (if include_system \<and> content (objects cm (system_message cm)) \<noteq> ''''
             then [system_message cm] else []) @ message_history cm;
          total_tokens = count_messages_tokens (count_tokens cm) (objects cm) messages
      in if int total_tokens > max_tokens cm then compress_messages cm messages
         else (messages, cm))"

text \<open>What a reader of a list of message objects sees: the dictionaries behind the addresses.\<close>

definition deref :: "context_manager \<Rightarrow> addr list \<Rightarrow> message list" where
  "deref cm messages = map (objects cm) messages"

text \<open>
  Two auxiliary notions for stating what the compression does: the effect of the
  truncation loop's body on one dictionary, and the list that \<open>_compress_messages\<close>
  returns (the last system message, then the window of the other messages).
\<close>

definition truncate_dict :: "message \<Rightarrow> message" where
  "truncate_dict m =
     (if role m \<noteq> ''system'' \<and> \<not> is_tool_result (content m) \<and> length (content m) > 5000
      then m\<lparr>content := truncated (content m)\<rparr> else m)"

definition compressed_list :: "store \<Rightarrow> nat \<Rightarrow> addr list \<Rightarrow> addr list" where
  "compressed_list h w ms =
     (case fst (split_messages h ms) of None \<Rightarrow> [] | Some s \<Rightarrow> [s])
     @ slice_last w (snd (split_messages h ms))"

section \<open>Properties of the compression\<close>

lemma split_messages_foldl:
  "foldl (\<lambda>(system_msg, other_msgs) msg.
              if role (h msg) = ''system'' then (Some msg, other_msgs)
              else (system_msg, other_msgs @ [msg])) (s, os) ms
   = ((case filter (\<lambda>a. role (h a) = ''system'') ms of [] \<Rightarrow> s | xs \<Rightarrow> Some (last xs)),
      os @ filter (\<lambda>a. role (h a) \<noteq> ''system'') ms)"
  by (induction ms arbitrary: s os) (auto split: list.splits)

lemma snd_split_messages:
  "snd (split_messages h ms) = filter (\<lambda>a. role (h a) \<noteq> ''system'') ms"
  by (simp add: split_messages_def split_messages_foldl)

lemma fst_split_messages:
  "fst (split_messages h ms) =
     (case filter (\<lambda>a. role (h a) = ''system'') ms of [] \<Rightarrow> None | xs \<Rightarrow> Some (last xs))"
  by (simp add: split_messages_def split_messages_foldl)


lemma truncate_message_eq: "truncate_message h b = h(b := truncate_dict (h b))"
  by (auto simp: truncate_message_def truncate_dict_def Let_def)

lemma length_truncated: "length c > 5000 \<Longrightarrow> length (truncated c) = 4515"
  by (simp add: truncated_def)

lemma truncate_dict_idem: "truncate_dict (truncate_dict m) = truncate_dict m"
  by (auto simp: truncate_dict_def length_truncated)

lemma role_truncate_dict: "role (truncate_dict m) = role m"
  by (simp add: truncate_dict_def)

lemma foldl_truncate_message:
  "foldl truncate_message h ms a = (if a \<in> set ms then truncate_dict (h a) else h a)"
proof (induction ms arbitrary: h)
  case Nil
  then show ?case by simp
next
  case (Cons b ms)
  have "foldl truncate_message h (b # ms) a = foldl truncate_message (truncate_message h b) ms a"
    by simp
  also have "\<dots> = (if a \<in> set ms then truncate_dict (truncate_message h b a)
                    else truncate_message h b a)"
    by (rule Cons.IH)
  also have "\<dots> = (if a \<in> set (b # ms) then truncate_dict (h a) else h a)"
    by (simp add: truncate_message_eq truncate_dict_idem)
  finally show ?case .
qed

lemma slice_last_idem: "slice_last n (slice_last n xs) = slice_last n xs"
  by (simp add: slice_last_def)

lemma set_slice_last: "set (slice_last n xs) \<subseteq> set xs"
  by (auto simp: slice_last_def dest: in_set_dropD)

lemma is_tool_result_content: "is_tool_result (tool_result_content n r)"
  by (simp add: is_tool_result_def tool_result_content_def)

lemma compress_messages_eq:
  assumes "objects cm = h" and "sliding_window_size cm = w"
  shows "compress_messages cm ms =
     (compressed_list h w ms,
      if int (count_messages_tokens (count_tokens cm) h (compressed_list h w ms)) > max_tokens cm
      then cm\<lparr>objects := (\<lambda>a. if a \<in> set (compressed_list h w ms)
                               then truncate_dict (h a) else h a)\<rparr>
      else cm)"
proof -
  have "foldl truncate_message h xs = (\<lambda>a. if a \<in> set xs then truncate_dict (h a) else h a)"
    for h xs
    by (rule ext) (rule foldl_truncate_message)
  then show ?thesis
    unfolding compress_messages_def compressed_list_def Let_def split_beta assms
    by (simp del: foldl_append)
qed

lemma set_compressed_list: "set (compressed_list h w ms) \<subseteq> set ms"
proof -
  have "set (slice_last w (snd (split_messages h ms))) \<subseteq> set ms"
    using set_slice_last [of w "snd (split_messages h ms)"] by (auto simp: snd_split_messages)
  moreover have "fst (split_messages h ms) = Some s \<Longrightarrow> s \<in> set ms" for s
  proof -
    assume a: "fst (split_messages h ms) = Some s"
    then have "filter (\<lambda>a. role (h a) = ''system'') ms \<noteq> []"
      by (auto simp: fst_split_messages)
    moreover from this a have "s = last (filter (\<lambda>a. role (h a) = ''system'') ms)"
      by (auto simp: fst_split_messages split: list.splits)
    ultimately have "s \<in> set (filter (\<lambda>a. role (h a) = ''system'') ms)"
      using last_in_set by blast
    then show ?thesis by simp
  qed
  ultimately show ?thesis
    by (auto simp: compressed_list_def split: option.splits)
qed

lemma count_messages_tokens_cong:
  "(\<And>a. a \<in> set ms \<Longrightarrow> content (h a) = content (h' a)) \<Longrightarrow>
   count_messages_tokens ct h ms = count_messages_tokens ct h' ms"
proof -
  assume eq: "\<And>a. a \<in> set ms \<Longrightarrow> content (h a) = content (h' a)"
  have "foldl (\<lambda>total msg. total + ct (content (h msg))) n ms
      = foldl (\<lambda>total msg. total + ct (content (h' msg))) n ms" for n
    using eq by (induction ms arbitrary: n) auto
  then show ?thesis by (simp add: count_messages_tokens_def)
qed

lemma compressed_list_idem:
  assumes roles: "\<And>a. role (h' a) = role (h a)"
  shows "compressed_list h' w (compressed_list h w ms) = compressed_list h w ms"
proof -
  define recent where "recent = slice_last w (filter (\<lambda>a. role (h a) \<noteq> ''system'') ms)"
  have rec_ns: "\<forall>a \<in> set recent. role (h a) \<noteq> ''system''"
    using set_slice_last [of w "filter (\<lambda>a. role (h a) \<noteq> ''system'') ms"]
    by (auto simp: recent_def)
  have f1: "filter (\<lambda>a. role (h a) = ''system'') recent = []"
    using rec_ns by (simp add: filter_empty_conv)
  have f2: "filter (\<lambda>a. role (h a) \<noteq> ''system'') recent = recent"
    using rec_ns by (simp add: filter_id_conv)
  have again: "slice_last w recent = recent"
    by (simp add: recent_def slice_last_idem)
  show ?thesis
  proof (cases "fst (split_messages h ms)")
    case None
    then have "compressed_list h w ms = recent"
      by (simp add: compressed_list_def snd_split_messages recent_def)
    moreover have "compressed_list h' w recent = recent"
      by (simp add: compressed_list_def fst_split_messages snd_split_messages roles f1 f2 again)
    ultimately show ?thesis by simp
  next
    case (Some s)
    then have sys: "role (h s) = ''system''"
      using last_in_set [of "filter (\<lambda>a. role (h a) = ''system'') ms"]
      by (auto simp: fst_split_messages split: list.splits)
    from Some have "compressed_list h w ms = s # recent"
      by (simp add: compressed_list_def snd_split_messages recent_def)
    moreover have "compressed_list h' w (s # recent) = s # recent"
      by (simp add: compressed_list_def fst_split_messages snd_split_messages roles sys f1 f2 again)
    ultimately show ?thesis by simp
  qed
qed

text \<open>
  Claim C6. Compressing twice is the same as compressing once: applied to its own
  output (the returned list, read in the store the first pass left behind),
  \<open>_compress_messages\<close> returns the same list and changes no message. The window
  re-slice of a list that is already a window is the list itself, and a truncated
  content has 4515 characters, below the threshold of 5000. This holds for every list,
  over the token budget or not. Determinism is part of the embedding: the result is a
  function of the list, the store, the budget, the window size and the token counter.
\<close>

theorem compress_idempotent:
  "compress_messages (snd (compress_messages cm ms)) (fst (compress_messages cm ms))
     = compress_messages cm ms"
proof -
  define w where "w = sliding_window_size cm"
  define out where "out = compressed_list (objects cm) w ms"
  define h' where "h' = (\<lambda>a. if a \<in> set out then truncate_dict (objects cm a) else objects cm a)"
  show ?thesis
  proof (cases "int (count_messages_tokens (count_tokens cm) (objects cm) out) > max_tokens cm")
    case True
    then have first: "compress_messages cm ms = (out, cm\<lparr>objects := h'\<rparr>)"
      by (simp add: compress_messages_eq [of cm "objects cm" w] out_def h'_def w_def)
    have roles: "\<And>a. role (h' a) = role (objects cm a)"
      by (simp add: h'_def role_truncate_dict)
    have out': "compressed_list h' w out = out"
      unfolding out_def by (rule compressed_list_idem) (rule roles)
    have stable: "(\<lambda>a. if a \<in> set out then truncate_dict (h' a) else h' a) = h'"
      by (rule ext) (simp add: h'_def truncate_dict_idem)
    have o: "objects (cm\<lparr>objects := h'\<rparr>) = h'"
      and s: "sliding_window_size (cm\<lparr>objects := h'\<rparr>) = w"
      by (simp_all add: w_def)
    have "compress_messages (cm\<lparr>objects := h'\<rparr>) out = (out, cm\<lparr>objects := h'\<rparr>)"
      by (simp add: compress_messages_eq [OF o s] out' stable)
    with first show ?thesis by simp
  next
    case False
    then have first: "compress_messages cm ms = (out, cm)"
      by (simp add: compress_messages_eq [of cm "objects cm" w] out_def w_def)
    have out': "compressed_list (objects cm) w out = out"
      unfolding out_def by (rule compressed_list_idem) simp
    have s: "sliding_window_size cm = w"
      by (simp add: w_def)
    from False have "compress_messages cm out = (out, cm)"
      by (simp add: compress_messages_eq [OF refl s] out')
    with first show ?thesis by simp
  qed
qed

lemma objects_compress_messages:
  "objects (snd (compress_messages cm ms)) a = objects cm a \<or>
   (a \<in> set (fst (compress_messages cm ms)) \<and>
    objects (snd (compress_messages cm ms)) a = truncate_dict (objects cm a))"
  by (simp add: compress_messages_eq [OF refl refl])

lemma truncate_dict_cases:
  "truncate_dict m = m \<or>
   (role m \<noteq> ''system'' \<and> \<not> is_tool_result (content m) \<and> 5000 < length (content m) \<and>
    truncate_dict m = m\<lparr>content := take 4500 (content m) @ ''... [truncated]''\<rparr>)"
  by (simp add: truncate_dict_def truncated_def)

lemma truncate_dict_tool_result: "is_tool_result (content m) \<Longrightarrow> truncate_dict m = m"
  by (simp add: truncate_dict_def)

text \<open>
  Claim C5. The compression never truncates a tool-result message. A tool result is a
  message whose content starts with \<open>TOOL RESULT\<close>, which every content built by
  \<open>add_tool_result\<close> does. The list returned holds only messages of the input; a message
  object whose content is a tool result is left as it is, whatever its length; and a
  message object that the compression changes has a role other than \<open>system\<close>, is no
  tool result, was longer than 5000 characters, and now holds its first 4500 characters
  followed by the marker.
\<close>

theorem compress_never_truncates_tool_results:
  "is_tool_result (tool_result_content tool_name result) \<and>
   set (fst (compress_messages cm messages)) \<subseteq> set messages \<and>
   (\<forall>a. is_tool_result (content (objects cm a)) \<longrightarrow>
        objects (snd (compress_messages cm messages)) a = objects cm a) \<and>
   (\<forall>a. objects (snd (compress_messages cm messages)) a \<noteq> objects cm a \<longrightarrow>
        role (objects cm a) \<noteq> ''system'' \<and> \<not> is_tool_result (content (objects cm a)) \<and>
        5000 < length (content (objects cm a)) \<and>
        objects (snd (compress_messages cm messages)) a =
          (objects cm a)\<lparr>content := take 4500 (content (objects cm a)) @ ''... [truncated]''\<rparr>)"
proof (intro conjI allI impI)
  show "is_tool_result (tool_result_content tool_name result)"
    by (rule is_tool_result_content)
  show "set (fst (compress_messages cm messages)) \<subseteq> set messages"
    by (simp add: compress_messages_eq [OF refl refl] set_compressed_list)
next
  fix a
  assume "is_tool_result (content (objects cm a))"
  then show "objects (snd (compress_messages cm messages)) a = objects cm a"
    using objects_compress_messages [of cm messages a] by (auto simp: truncate_dict_tool_result)
next
  fix a
  assume changed: "objects (snd (compress_messages cm messages)) a \<noteq> objects cm a"
  then have eq: "objects (snd (compress_messages cm messages)) a = truncate_dict (objects cm a)"
    using objects_compress_messages [of cm messages a] by auto
  with changed have neq: "truncate_dict (objects cm a) \<noteq> objects cm a"
    by simp
  with truncate_dict_cases [of "objects cm a"]
  show "role (objects cm a) \<noteq> ''system''"
    and "\<not> is_tool_result (content (objects cm a))"
    and "5000 < length (content (objects cm a))"
    and "objects (snd (compress_messages cm messages)) a =
          (objects cm a)\<lparr>content := take 4500 (content (objects cm a)) @ ''... [truncated]''\<rparr>"
    using eq by auto
qed

text \<open>
  A buffer with a tool result of 6029 characters and a planning prompt of 6006
  characters, and a token budget of 0, so that both compression tiers run.
\<close>

definition demo_cm :: context_manager where
  "demo_cm =
     add_user_message
       (add_tool_result (new_context_manager 0 5 length) ''extract_text''
          (replicate 6000 (CHR ''x'')))
       (''plan: '' @ replicate 6000 (CHR ''y''))"

lemma demo_cm_eq:
  "demo_cm =
     \<lparr>max_tokens = 0, sliding_window_size = 5, count_tokens = length,
      objects = (\<lambda>_. \<lparr>role = ''system'', content = ''''\<rparr>)
        (Suc 0 := \<lparr>role = ''user'',
               content = tool_result_content ''extract_text'' (replicate 6000 (CHR ''x''))\<rparr>,
         Suc (Suc 0) := \<lparr>role = ''user'', content = ''plan: '' @ replicate 6000 (CHR ''y'')\<rparr>),
      next_addr = Suc (Suc (Suc 0)), message_history = [Suc 0, Suc (Suc 0)],
      system_message = 0\<rparr>"
  by (simp add: demo_cm_def add_user_message_def add_tool_result_def append_message_def
      alloc_def new_context_manager_def deque_append_def Let_def)

lemma demo_cm_objects:
  "objects demo_cm (Suc 0) =
     \<lparr>role = ''user'',
      content = tool_result_content ''extract_text'' (replicate 6000 (CHR ''x''))\<rparr>"
  "objects demo_cm (Suc (Suc 0)) =
     \<lparr>role = ''user'', content = ''plan: '' @ replicate 6000 (CHR ''y'')\<rparr>"
  "message_history demo_cm = [Suc 0, Suc (Suc 0)]"
  "max_tokens demo_cm = 0" "sliding_window_size demo_cm = 5" "count_tokens demo_cm = length"
  by (simp_all add: demo_cm_eq)

lemma demo_compressed_list:
  "compressed_list (objects demo_cm) 5 [Suc 0, Suc (Suc 0)] = [Suc 0, Suc (Suc 0)]"
  by (simp add: demo_cm_objects compressed_list_def fst_split_messages snd_split_messages
      slice_last_def)

lemma demo_compress_objects:
  "objects (snd (compress_messages demo_cm (message_history demo_cm))) (Suc (Suc 0)) =
     truncate_dict (objects demo_cm (Suc (Suc 0)))"
proof -
  have "0 < count_messages_tokens length (objects demo_cm) [Suc 0, Suc (Suc 0)]"
    by (simp add: demo_cm_objects count_messages_tokens_def)
  then show ?thesis
    by (simp add: compress_messages_eq [OF refl demo_cm_objects(5)] demo_cm_objects(3,4,6)
        demo_compressed_list)
qed

text \<open>Both cases of claim C5 on that buffer: the tool result is kept, the prompt is cut.\<close>

theorem compress_never_truncates_tool_results_witness:
  "is_tool_result (content (objects demo_cm (Suc 0))) \<and>
   5000 < length (content (objects demo_cm (Suc 0))) \<and>
   objects (snd (compress_messages demo_cm (message_history demo_cm))) (Suc 0)
     = objects demo_cm (Suc 0) \<and>
   objects (snd (compress_messages demo_cm (message_history demo_cm))) (Suc (Suc 0))
     \<noteq> objects demo_cm (Suc (Suc 0)) \<and>
   role (objects demo_cm (Suc (Suc 0))) \<noteq> ''system'' \<and>
   \<not> is_tool_result (content (objects demo_cm (Suc (Suc 0)))) \<and>
   5000 < length (content (objects demo_cm (Suc (Suc 0)))) \<and>
   objects (snd (compress_messages demo_cm (message_history demo_cm))) (Suc (Suc 0)) =
     (objects demo_cm (Suc (Suc 0)))
       \<lparr>content := take 4500 (content (objects demo_cm (Suc (Suc 0)))) @ ''... [truncated]''\<rparr>"
proof -
  have tool: "is_tool_result (content (objects demo_cm (Suc 0)))"
    by (simp add: demo_cm_objects is_tool_result_content)
  have len: "5000 < length (content (objects demo_cm (Suc 0)))"
    by (simp add: demo_cm_objects tool_result_content_def)
  have "length (content (truncate_dict (objects demo_cm (Suc (Suc 0))))) = 4515"
    by (simp add: demo_cm_objects truncate_dict_def is_tool_result_def truncated_def)
  moreover have "length (content (objects demo_cm (Suc (Suc 0)))) = 6006"
    by (simp add: demo_cm_objects)
  ultimately have changed:
    "objects (snd (compress_messages demo_cm (message_history demo_cm))) (Suc (Suc 0))
       \<noteq> objects demo_cm (Suc (Suc 0))"
    unfolding demo_compress_objects by auto
  from compress_never_truncates_tool_results
         [of "''extract_text''" "[]" demo_cm "message_history demo_cm"]
  show ?thesis
    using tool len changed by blast
qed

section \<open>Effect of get_messages on the stored history\<close>

text \<open>The list that \<open>get_messages\<close> assembles before it measures the tokens.\<close>

definition assembled :: "context_manager \<Rightarrow> bool \<Rightarrow> addr list" where
  "assembled cm include_system =
     (if include_system \<and> content (objects cm (system_message cm)) \<noteq> ''''
      then [system_message cm] else []) @ message_history cm"

lemma get_messages_eq:
  "get_messages cm inc =
     (if int (count_messages_tokens (count_tokens cm) (objects cm) (assembled cm inc)) > max_tokens cm
      then compress_messages cm (assembled cm inc) else (assembled cm inc, cm))"
  by (simp add: get_messages_def assembled_def Let_def)

lemma message_history_compress_messages:
  "message_history (snd (compress_messages cm ms)) = message_history cm"
  by (simp add: compress_messages_eq [OF refl refl])

lemma message_history_get_messages:
  "message_history (snd (get_messages cm inc)) = message_history cm"
  by (simp add: get_messages_eq message_history_compress_messages)

lemma objects_get_messages:
  "objects (snd (get_messages cm inc)) a = objects cm a \<or>
   objects (snd (get_messages cm inc)) a = truncate_dict (objects cm a)"
  using objects_compress_messages [of cm "assembled cm inc" a]
  by (auto simp: get_messages_eq)

lemma objects_get_messages_window:
  assumes "a \<in> set (compressed_list (objects cm) (sliding_window_size cm) (assembled cm inc))"
    and "max_tokens cm < int (count_messages_tokens (count_tokens cm) (objects cm)
                               (assembled cm inc))"
    and "max_tokens cm < int (count_messages_tokens (count_tokens cm) (objects cm)
           (compressed_list (objects cm) (sliding_window_size cm) (assembled cm inc)))"
  shows "objects (snd (get_messages cm inc)) a = truncate_dict (objects cm a)"
    and "a \<in> set (fst (get_messages cm inc))"
  using assms by (simp_all add: get_messages_eq compress_messages_eq [OF refl refl])

lemma get_messages_window_suffices:
  assumes "int (count_messages_tokens (count_tokens cm) (objects cm)
           (compressed_list (objects cm) (sliding_window_size cm) (assembled cm inc)))
           \<le> max_tokens cm"
  shows "snd (get_messages cm inc) = cm"
  using assms by (simp add: get_messages_eq compress_messages_eq [OF refl refl])

text \<open>
  Claim C9, as the code has it. \<open>get_messages\<close> has a side effect on the stored
  history. The list it works on holds the very dictionaries of the history deque, and
  the truncation loop assigns to their \<open>content\<close> key. The loop runs when the assembled
  messages exceed the token budget and the messages that the sliding window keeps (the
  last system message and the last \<open>sliding_window_size\<close> others) exceed it too, both
  measured on the buffer as the caller passes it in. Then every kept message of the
  history that is no system message, no tool result and longer than 5000 characters is
  returned and is cut in the store: the deque holds the same objects as before, their
  contents have changed, and every later call of \<open>get_messages\<close> finds the cut content.
\<close>

theorem get_messages_mutates_history:
  assumes "a \<in> set (message_history cm)"
    and "a \<in> set (compressed_list (objects cm) (sliding_window_size cm)
                     (assembled cm include_system))"
    and "role (objects cm a) \<noteq> ''system''"
    and "\<not> is_tool_result (content (objects cm a))"
    and "5000 < length (content (objects cm a))"
    and "max_tokens cm < int (count_messages_tokens (count_tokens cm) (objects cm)
                               (assembled cm include_system))"
    and "max_tokens cm < int (count_messages_tokens (count_tokens cm) (objects cm)
           (compressed_list (objects cm) (sliding_window_size cm)
              (assembled cm include_system)))"
  shows "a \<in> set (fst (get_messages cm include_system)) \<and>
         message_history (snd (get_messages cm include_system)) = message_history cm \<and>
         content (objects (snd (get_messages cm include_system)) a)
           = take 4500 (content (objects cm a)) @ ''... [truncated]'' \<and>
         deref (snd (get_messages cm include_system)) (message_history cm)
           \<noteq> deref cm (message_history cm) \<and>
         (\<forall>again. content (objects (snd (get_messages (snd (get_messages cm include_system)) again)) a)
           = take 4500 (content (objects cm a)) @ ''... [truncated]'')"
proof -
  let ?cm' = "snd (get_messages cm include_system)"
  have obj: "objects ?cm' a = truncate_dict (objects cm a)"
    using assms(2,6,7) by (rule objects_get_messages_window)
  have ret: "a \<in> set (fst (get_messages cm include_system))"
    using assms(2,6,7) by (rule objects_get_messages_window)
  have cut: "truncate_dict (objects cm a)
      = (objects cm a)\<lparr>content := take 4500 (content (objects cm a)) @ ''... [truncated]''\<rparr>"
    using assms(3,4,5) by (simp add: truncate_dict_def truncated_def)
  have c: "content (objects ?cm' a) = take 4500 (content (objects cm a)) @ ''... [truncated]''"
    by (simp add: obj cut)
  have "length (content (objects ?cm' a)) = 4515"
    using assms(5) by (simp add: c)
  with assms(5) have "objects ?cm' a \<noteq> objects cm a"
    by auto
  with assms(1) have d: "deref ?cm' (message_history cm) \<noteq> deref cm (message_history cm)"
    by (auto simp: deref_def)
  have later: "content (objects (snd (get_messages ?cm' again)) a)
      = take 4500 (content (objects cm a)) @ ''... [truncated]''" for again
    using objects_get_messages [of ?cm' again a]
    by (auto simp: obj truncate_dict_idem) (simp_all add: cut)
  show ?thesis
    using ret c d later by (simp add: message_history_get_messages)
qed

text \<open>
  A buffer with a token budget of 7000 and two planning prompts of 6006 characters
  each, for a given window size; tokens are counted as characters.
\<close>

definition two_prompts :: "nat \<Rightarrow> context_manager" where
  "two_prompts w =
     add_user_message
       (add_user_message (new_context_manager 7000 w length)
          (''plan: '' @ replicate 6000 (CHR ''y'')))
       (''plan: '' @ replicate 6000 (CHR ''z''))"

lemma two_prompts_eq:
  "0 < w \<Longrightarrow> two_prompts w =
     \<lparr>max_tokens = 7000, sliding_window_size = w, count_tokens = length,
      objects = (\<lambda>_. \<lparr>role = ''system'', content = ''''\<rparr>)
        (Suc 0 := \<lparr>role = ''user'', content = ''plan: '' @ replicate 6000 (CHR ''y'')\<rparr>,
         Suc (Suc 0) := \<lparr>role = ''user'', content = ''plan: '' @ replicate 6000 (CHR ''z'')\<rparr>),
      next_addr = Suc (Suc (Suc 0)), message_history = [Suc 0, Suc (Suc 0)],
      system_message = 0\<rparr>"
  by (simp add: two_prompts_def add_user_message_def append_message_def
      alloc_def new_context_manager_def deque_append_def Let_def)

lemma two_prompts_fields:
  assumes "0 < w"
  shows "objects (two_prompts w) (Suc 0) =
     \<lparr>role = ''user'', content = ''plan: '' @ replicate 6000 (CHR ''y'')\<rparr>"
  "objects (two_prompts w) (Suc (Suc 0)) =
     \<lparr>role = ''user'', content = ''plan: '' @ replicate 6000 (CHR ''z'')\<rparr>"
  "message_history (two_prompts w) = [Suc 0, Suc (Suc 0)]"
  "max_tokens (two_prompts w) = 7000" "sliding_window_size (two_prompts w) = w"
  "count_tokens (two_prompts w) = length"
  "assembled (two_prompts w) inc = [Suc 0, Suc (Suc 0)]"
  using assms by (simp_all add: two_prompts_eq assembled_def)

lemma two_prompts_window:
  "compressed_list (objects (two_prompts (Suc 0))) (Suc 0) [Suc 0, Suc (Suc 0)] = [Suc (Suc 0)]"
  "compressed_list (objects (two_prompts 2)) 2 [Suc 0, Suc (Suc 0)] = [Suc 0, Suc (Suc 0)]"
  by (simp_all add: two_prompts_fields compressed_list_def fst_split_messages
      snd_split_messages slice_last_def)

lemma two_prompts_tokens:
  "0 < w \<Longrightarrow> count_messages_tokens length (objects (two_prompts w)) [Suc 0, Suc (Suc 0)] = 12012"
  "0 < w \<Longrightarrow> count_messages_tokens length (objects (two_prompts w)) [Suc (Suc 0)] = 6006"
  by (simp_all add: two_prompts_fields count_messages_tokens_def)

text \<open>
  Claim C9 as stated fails where it takes an exceeded budget to be enough. With a
  window of one message the two prompts exceed the budget, the compression pass runs
  and returns the second prompt, which is long and no tool result; the window alone
  brings the list under the budget, the truncation loop is skipped, and the call
  leaves the context manager exactly as it was.
\<close>

theorem get_messages_mutates_history_counterexample:
  "max_tokens (two_prompts 1)
     < int (count_messages_tokens (count_tokens (two_prompts 1)) (objects (two_prompts 1))
              (assembled (two_prompts 1) True)) \<and>
   message_history (two_prompts 1) = [1, 2] \<and>
   role (objects (two_prompts 1) 2) \<noteq> ''system'' \<and>
   \<not> is_tool_result (content (objects (two_prompts 1) 2)) \<and>
   length (content (objects (two_prompts 1) 2)) = 6006 \<and>
   fst (get_messages (two_prompts 1) True) = [2] \<and>
   snd (get_messages (two_prompts 1) True) = two_prompts 1"
proof -
  have w: "(0::nat) < Suc 0" by simp
  note f = two_prompts_fields [OF w]
  have over: "max_tokens (two_prompts (Suc 0))
     < int (count_messages_tokens (count_tokens (two_prompts (Suc 0)))
              (objects (two_prompts (Suc 0))) (assembled (two_prompts (Suc 0)) True))"
    by (simp add: f two_prompts_tokens)
  have ret: "fst (get_messages (two_prompts (Suc 0)) True) = [Suc (Suc 0)]"
    using over
    by (simp add: get_messages_eq compress_messages_eq [OF refl f(5)])
       (simp add: f two_prompts_window)
  have same: "snd (get_messages (two_prompts (Suc 0)) True) = two_prompts (Suc 0)"
    by (rule get_messages_window_suffices)
       (simp add: f two_prompts_window two_prompts_tokens)
  have msg: "role (objects (two_prompts (Suc 0)) (Suc (Suc 0))) \<noteq> ''system''"
    "\<not> is_tool_result (content (objects (two_prompts (Suc 0)) (Suc (Suc 0))))"
    "length (content (objects (two_prompts (Suc 0)) (Suc (Suc 0)))) = 6006"
    by (simp_all add: f is_tool_result_def)
  have two: "(2::nat) = Suc (Suc 0)" by simp
  show ?thesis
    unfolding One_nat_def two
    using over ret same msg f(3) by simp
qed

text \<open>
  Claim C9 on the same prompts with a window of two messages: both are kept, the kept
  list still exceeds the budget, and the first prompt stays cut after the call.
\<close>

theorem get_messages_mutates_history_witness:
  "message_history (two_prompts 2) = [1, 2] \<and>
   content (objects (two_prompts 2) 1) = ''plan: '' @ replicate 6000 (CHR ''y'') \<and>
   fst (get_messages (two_prompts 2) True) = [1, 2] \<and>
   message_history (snd (get_messages (two_prompts 2) True)) = [1, 2] \<and>
   content (objects (snd (get_messages (two_prompts 2) True)) 1)
     = ''plan: '' @ replicate 4494 (CHR ''y'') @ ''... [truncated]'' \<and>
   deref (snd (get_messages (two_prompts 2) True)) (message_history (two_prompts 2))
     \<noteq> deref (two_prompts 2) (message_history (two_prompts 2)) \<and>
   content (objects (snd (get_messages (snd (get_messages (two_prompts 2) True)) True)) 1)
     = ''plan: '' @ replicate 4494 (CHR ''y'') @ ''... [truncated]''"
proof -
  have w: "(0::nat) < 2" by simp
  note f = two_prompts_fields [OF w]
  have h1: "Suc 0 \<in> set (message_history (two_prompts 2))"
    by (simp add: f)
  have h2: "Suc 0 \<in> set (compressed_list (objects (two_prompts 2))
              (sliding_window_size (two_prompts 2)) (assembled (two_prompts 2) True))"
    by (simp add: f(5,7) two_prompts_window)
  have h3: "role (objects (two_prompts 2) (Suc 0)) \<noteq> ''system''"
    by (simp add: f)
  have h4: "\<not> is_tool_result (content (objects (two_prompts 2) (Suc 0)))"
    by (simp add: f is_tool_result_def)
  have h5: "5000 < length (content (objects (two_prompts 2) (Suc 0)))"
    by (simp add: f)
  have h6: "max_tokens (two_prompts 2)
      < int (count_messages_tokens (count_tokens (two_prompts 2)) (objects (two_prompts 2))
               (assembled (two_prompts 2) True))"
    by (simp add: f(4,6,7) two_prompts_tokens)
  have h7: "max_tokens (two_prompts 2)
      < int (count_messages_tokens (count_tokens (two_prompts 2)) (objects (two_prompts 2))
               (compressed_list (objects (two_prompts 2))
                  (sliding_window_size (two_prompts 2)) (assembled (two_prompts 2) True)))"
    by (simp add: f(4,5,6,7) two_prompts_window two_prompts_tokens)
  have ret: "fst (get_messages (two_prompts 2) True) = [Suc 0, Suc (Suc 0)]"
    using h6
    by (simp add: get_messages_eq compress_messages_eq [OF refl f(5)])
       (simp add: f(7) two_prompts_window)
  have t: "take 4500 (content (objects (two_prompts 2) (Suc 0)))
      = ''plan: '' @ replicate 4494 (CHR ''y'')"
    by (simp add: f)
  from get_messages_mutates_history [OF h1 h2 h3 h4 h5 h6 h7]
  show ?thesis
    unfolding One_nat_def
    using ret by (simp add: t f(1,3))
qed

section \<open>Tool calls, results and the security agent\<close>

text \<open>
  The message texts of the source are Russian string literals. They are kept as named
  constants holding an English rendering in ASCII; no property below depends on the
  wording, only on which constant is used and on its being non-empty.
\<close>

definition msg_step_limit :: string where
  "msg_step_limit = ''Step limit exceeded''"

definition msg_unknown_error :: string where
  "msg_unknown_error = ''Unknown error''"

definition msg_needs_confirmation :: string where
  "msg_needs_confirmation = ''Action requires confirmation: ''"

definition msg_task_done :: string where
  "msg_task_done = ''Task completed''"

definition msg_user_answer_needed :: string where
  "msg_user_answer_needed = ''User answer required''"

definition msg_unknown_tool :: string where
  "msg_unknown_tool = ''Unknown tool: ''"

definition msg_security_disabled :: string where
  "msg_security_disabled = ''Security layer disabled''"

definition msg_confirmed_by_user :: string where
  "msg_confirmed_by_user = ''Confirmed by user''"

definition msg_rejected_by_user :: string where
  "msg_rejected_by_user = ''Rejected by user''"

definition msg_action_safe :: string where
  "msg_action_safe = ''Action is safe''"

definition msg_destructive_pattern :: "string \<Rightarrow> string" where
  "msg_destructive_pattern pattern =
     ''Destructive pattern found: '' @ [CHR 0x27] @ pattern @ [CHR 0x27]"

definition msg_payment_data :: string where
  "msg_payment_data = ''Attempt to enter payment data''"

subsection \<open>Dictionaries and strings\<close>

text \<open>\<open>d[k]\<close> raises \<open>KeyError(k)\<close>, whose text is the \<open>repr\<close> of the key.\<close>

definition key_error :: "string \<Rightarrow> exn" where
  "key_error k = [CHR 0x27] @ k @ [CHR 0x27]"

definition subscript :: "pydict \<Rightarrow> string \<Rightarrow> exn + pyval" where
  "subscript d k = (case map_of d k of None \<Rightarrow> Inl (key_error k) | Some v \<Rightarrow> Inr v)"

text \<open>\<open>d.get(k, default)\<close>.\<close>

definition get_default :: "pydict \<Rightarrow> string \<Rightarrow> pyval \<Rightarrow> pyval" where
  "get_default d k dflt = (case map_of d k of None \<Rightarrow> dflt | Some v \<Rightarrow> v)"

definition type_name :: "pyval \<Rightarrow> string" where
  "type_name v =
     (case v of PNone \<Rightarrow> ''NoneType'' | PBool _ \<Rightarrow> ''bool'' | PInt _ \<Rightarrow> ''int''
      | PStr _ \<Rightarrow> ''str'' | PList _ \<Rightarrow> ''list'' | PDict _ \<Rightarrow> ''dict'')"

definition attribute_error :: "pyval \<Rightarrow> string \<Rightarrow> exn" where
  "attribute_error v a =
     [CHR 0x27] @ type_name v @ [CHR 0x27] @ '' object has no attribute ''
     @ [CHR 0x27] @ a @ [CHR 0x27]"

text \<open>\<open>str.lower\<close>, on the ASCII letters.\<close>

definition lower_char :: "char \<Rightarrow> char" where
  "lower_char c =
     (if (65::nat) \<le> of_char c \<and> of_char c \<le> (90::nat)
      then char_of (of_char c + (32::nat)) else c)"

definition lower :: "string \<Rightarrow> string" where
  "lower s = map lower_char s"

text \<open>\<open>p in s\<close> for strings: \<open>p\<close> occurs in \<open>s\<close> as a substring.\<close>

fun py_in :: "string \<Rightarrow> string \<Rightarrow> bool" where
  "py_in p [] = (p = [])"
| "py_in p (c # s) = (prefix p (c # s) \<or> py_in p s)"

text \<open>\<open>parameters.get(k, "").lower()\<close>: only a string has the method.\<close>

definition get_lower :: "pydict \<Rightarrow> string \<Rightarrow> exn + string" where
  "get_lower parameters k =
     (case get_default parameters k (PStr '''') of
        PStr s \<Rightarrow> Inr (lower s)
      | v \<Rightarrow> Inl (attribute_error v ''lower''))"

subsection \<open>Security agent (src/agents/security.py)\<close>

record verdict =
  safe :: bool
  reason :: string
  requires_confirmation :: bool

text \<open>
  The confirmation callback is supplied by the embedding program and asks the operator,
  so it reads and changes the world outside the agent, of type \<open>'w\<close>.
\<close>

record 'w security_agent =
  enabled :: bool
  destructive_patterns :: "string list"
  user_confirmation_callback ::
    "('w \<Rightarrow> string \<Rightarrow> pydict \<Rightarrow> string \<Rightarrow> (exn + bool) \<times> 'w) option"

definition is_destructive_action ::
  "string list \<Rightarrow> string \<Rightarrow> pydict \<Rightarrow> exn + (bool \<times> string)" where
  "is_destructive_action patterns action_name parameters =
     (case (if action_name = ''click'' then
              (case get_lower parameters ''selector'' of
                 Inl e \<Rightarrow> Inl e
               | Inr selector \<Rightarrow>
                   (case get_lower parameters ''reason'' of
                      Inl e \<Rightarrow> Inl e
                    | Inr reason_text \<Rightarrow>
                        Inr (find (\<lambda>pattern. py_in pattern selector \<or> py_in pattern reason_text)
                               patterns)))
            else Inr None) of
        Inl e \<Rightarrow> Inl e
      | Inr (Some pattern) \<Rightarrow> Inr (True, msg_destructive_pattern pattern)
      | Inr None \<Rightarrow>
          (if action_name = ''type_text'' then
             (case get_lower parameters ''text'' of
                Inl e \<Rightarrow> Inl e
              | Inr text \<Rightarrow>
                  (case get_lower parameters ''selector'' of
                     Inl e \<Rightarrow> Inl e
                   | Inr selector \<Rightarrow>
                       if list_ex (\<lambda>keyword. py_in keyword selector)
                            [''card'', ''payment'', ''cvv'', ''credit'']
                       then Inr (True, msg_payment_data) else Inr (False, '''')))
           else Inr (False, '''')))"

definition check_action ::
  "'w security_agent \<Rightarrow> 'w \<Rightarrow> string \<Rightarrow> pydict \<Rightarrow> (exn + verdict) \<times> 'w" where
  "check_action sa w action_name parameters =
     (if \<not> enabled sa then
        (Inr \<lparr>safe = True, reason = msg_security_disabled, requires_confirmation = False\<rparr>, w)
      else
        (case is_destructive_action (destructive_patterns sa) action_name parameters of
           Inl e \<Rightarrow> (Inl e, w)
         | Inr (is_destructive, why) \<Rightarrow>
             if is_destructive then
               (case user_confirmation_callback sa of
                  Some callback \<Rightarrow>
                    (case callback w action_name parameters why of
                       (Inl e, w') \<Rightarrow> (Inl e, w')
                     | (Inr confirmed, w') \<Rightarrow>
                         if confirmed then
                           (Inr \<lparr>safe = True, reason = msg_confirmed_by_user,
                                 requires_confirmation = False\<rparr>, w')
                         else
                           (Inr \<lparr>safe = False, reason = msg_rejected_by_user,
                                 requires_confirmation = False\<rparr>, w'))
                | None \<Rightarrow>
                    (Inr \<lparr>safe = False, reason = why, requires_confirmation = True\<rparr>, w))
             else
               (Inr \<lparr>safe = True, reason = msg_action_safe, requires_confirmation = False\<rparr>, w)))"

section \<open>Orchestrator (src/agents/orchestrator.py)\<close>

record tool_call =
  tc_name :: string
  tc_arguments :: pydict

text \<open>
  The unified answer of \<open>LLMClient.chat_completion\<close>: \<open>content\<close> is \<open>None\<close> or a string,
  \<open>tool_calls\<close> is absent (read as the empty list) or a list.
\<close>

record response =
  resp_content :: "string option"
  resp_tool_calls :: "tool_call list"

text \<open>
  \<open>TaskResult\<close>. The completion action stores whatever values the decision-maker passed
  as \<open>success\<close> and \<open>result\<close>, so these two fields are Python values.
\<close>

record task_result =
  success :: pyval
  result :: pyval
  steps_taken :: int
  error :: "string option"

text \<open>The calls of the orchestrator module's logger, by call site.\<close>

datatype log_level = Debug | Info | Warning | Error

datatype log_message =
    Initialized string
  | New_task string
  | Step int int
  | Step_error int exn
  | Step_limit_reached int
  | Thought string
  | No_tools_called
  | Action string pydict
  | Security_alert string
  | Observation pydict
  | Task_done pyval
  | Question pyval
  | Unknown_tool string
  | Tool_error string exn
  | Recovery_attempt exn
  | Recovery_error exn

type_synonym log_entry = "log_level \<times> log_message"

record 'w orchestrator =
  task_id :: string
  context_manager :: context_manager
  security_agent :: "'w security_agent"
  max_steps :: int
  current_step :: int
  task_completed :: bool
  task_result :: "task_result option"
  log :: "log_entry list"

text \<open>
  What the orchestrator calls and this development does not define. \<open>PromptTemplates\<close>
  is not among the available sources: its four builders are parameters. The two that
  \<open>execute_task\<close> calls before its loop, outside any handler, are taken to return; the
  two called inside a handler may raise, as the handlers provide for. The recovery
  builder receives the step number, from which the source formats its second argument.
  \<open>json_dumps\<close> is \<open>json.dumps\<close> on a result dictionary. The remaining fields are the
  external collaborators, which act on the world \<open>'w\<close>: \<open>uuid.uuid4\<close>, the page analysis
  behind \<open>BrowserAgent.get_page_info\<close>, the language model behind
  \<open>LLMClient.chat_completion\<close> (it receives the messages behind the addresses), and
  the browser actions of \<open>BrowserAgent\<close>, called by method name with their positional
  arguments. Every external call is assumed to return or to raise an \<open>Exception\<close>.
\<close>

record 'w env =
  system_prompt :: string
  user_prompt_template :: "string \<Rightarrow> string"
  planning_prompt :: "string \<Rightarrow> pydict \<Rightarrow> exn + string"
  error_recovery_prompt :: "exn \<Rightarrow> int \<Rightarrow> exn + string"
  json_dumps :: "pydict \<Rightarrow> string"
  uuid4 :: "'w \<Rightarrow> string \<times> 'w"
  get_page_info :: "'w \<Rightarrow> (exn + pydict) \<times> 'w"
  chat_completion :: "'w \<Rightarrow> message list \<Rightarrow> (exn + response) \<times> 'w"
  browser_agent :: "'w \<Rightarrow> string \<Rightarrow> pyval list \<Rightarrow> (exn + pydict) \<times> 'w"

definition logged :: "log_level \<Rightarrow> log_message \<Rightarrow> 'w orchestrator \<Rightarrow> 'w orchestrator" where
  "logged lvl m st = st\<lparr>log := log st @ [(lvl, m)]\<rparr>"

subsection \<open>Content compressor (src/context/compression.py)\<close>

text \<open>The slice \<open>v[:100]\<close> of a value: lists and strings can be sliced, the rest raises.\<close>

definition slice_100 :: "pyval \<Rightarrow> exn + pyval" where
  "slice_100 v =
     (case v of
        PList xs \<Rightarrow> Inr (PList (take 100 xs))
      | PStr s \<Rightarrow> Inr (PStr (take 100 s))
      | _ \<Rightarrow> Inl ([CHR 0x27] @ type_name v @ [CHR 0x27] @ '' object is not subscriptable''))"

definition extract_essential_info :: "pydict \<Rightarrow> exn + pydict" where
  "extract_essential_info page_info =
     (case slice_100 (get_default page_info ''interactive_elements'' (PList [])) of
        Inl e \<Rightarrow> Inl e
      | Inr elements \<Rightarrow>
          Inr [(''url'', get_default page_info ''url'' (PStr '''')),
               (''title'', get_default page_info ''title'' (PStr '''')),
               (''interactive_elements'', elements)])"

subsection \<open>Tool dispatch\<close>

text \<open>
  The arguments a branch of \<open>_call_tool\<close> reads, in the order it evaluates them:
  \<open>Subscripted k\<close> is \<open>args[k]\<close>, \<open>Defaulted k d\<close> is \<open>args.get(k, d)\<close>.
\<close>

datatype arg_read = Subscripted string | Defaulted string pyval

fun read_args :: "pydict \<Rightarrow> arg_read list \<Rightarrow> exn + pyval list" where
  "read_args args [] = Inr []"
| "read_args args (Subscripted k # rs) =
     (case subscript args k of
        Inl e \<Rightarrow> Inl e
      | Inr v \<Rightarrow> (case read_args args rs of Inl e \<Rightarrow> Inl e | Inr vs \<Rightarrow> Inr (v # vs)))"
| "read_args args (Defaulted k d # rs) =
     (case read_args args rs of Inl e \<Rightarrow> Inl e | Inr vs \<Rightarrow> Inr (get_default args k d # vs))"

text \<open>A browser branch: read the arguments, then await the method of the browser agent.\<close>

definition browser_branch ::
  "'w env \<Rightarrow> 'w orchestrator \<Rightarrow> 'w \<Rightarrow> string \<Rightarrow> pydict \<Rightarrow> arg_read list
   \<Rightarrow> (exn + pydict) \<times> 'w orchestrator \<times> 'w" where
  "browser_branch env st w method args reads =
     (case read_args args reads of
        Inl e \<Rightarrow> (Inl e, st, w)
      | Inr vs \<Rightarrow> (case browser_agent env w method vs of (r, w') \<Rightarrow> (r, st, w')))"

text \<open>The body of the \<open>try\<close> block of \<open>_call_tool\<close>.\<close>

definition call_tool_try ::
  "'w env \<Rightarrow> 'w orchestrator \<Rightarrow> 'w \<Rightarrow> string \<Rightarrow> pydict
   \<Rightarrow> (exn + pydict) \<times> 'w orchestrator \<times> 'w" where
  "call_tool_try env st w tool_name args =
     (if tool_name = ''click'' then
        browser_branch env st w ''click'' args
          [Subscripted ''selector'', Defaulted ''reason'' (PStr '''')]
      else if tool_name = ''type_text'' then
        browser_branch env st w ''type_text'' args
          [Subscripted ''selector'', Subscripted ''text'', Defaulted ''reason'' (PStr '''')]
      else if tool_name = ''navigate'' then
        browser_branch env st w ''navigate'' args
          [Subscripted ''url'', Defaulted ''reason'' (PStr '''')]
      else if tool_name = ''scroll'' then
        browser_branch env st w ''scroll'' args
          [Subscripted ''direction'', Defaulted ''amount'' (PStr ''medium'')]
      else if tool_name = ''go_back'' then
        browser_branch env st w ''go_back'' args []
      else if tool_name = ''extract_text'' then
        browser_branch env st w ''extract_text'' args [Subscripted ''selector'']
      else if tool_name = ''wait'' then
        browser_branch env st w ''wait'' args
          [Subscripted ''seconds'', Defaulted ''reason'' (PStr '''')]
      else if tool_name = ''press_key'' then
        browser_branch env st w ''press_key'' args
          [Subscripted ''key'', Defaulted ''reason'' (PStr '''')]
      else if tool_name = ''task_complete'' then
        (Inr [(''success'', PBool True), (''message'', PStr msg_task_done)],
         logged Info (Task_done (get_default args ''result'' (PStr '''')))
           (st\<lparr>task_completed := True,
               task_result := Some \<lparr>success = get_default args ''success'' (PBool True),
                                     result = get_default args ''result'' (PStr ''''),
                                     steps_taken = current_step st,
                                     error = None\<rparr>\<rparr>),
         w)
      else if tool_name = ''ask_user'' then
        (let question = get_default args ''question'' (PStr '''') in
         (Inr [(''success'', PBool False), (''message'', PStr msg_user_answer_needed),
               (''question'', question), (''user_input_required'', PBool True)],
          logged Info (Question question) st, w))
      else
        (Inr [(''success'', PBool False), (''error'', PStr (msg_unknown_tool @ tool_name))],
         logged Error (Unknown_tool tool_name) st, w))"

definition call_tool ::
  "'w env \<Rightarrow> 'w orchestrator \<Rightarrow> 'w \<Rightarrow> string \<Rightarrow> pydict
   \<Rightarrow> pydict \<times> 'w orchestrator \<times> 'w" where
  "call_tool env st w tool_name args =
     (case call_tool_try env st w tool_name args of
        (Inr r, st', w') \<Rightarrow> (r, st', w')
      | (Inl e, st', w') \<Rightarrow>
          ([(''success'', PBool False), (''error'', PStr e)],
           logged Error (Tool_error tool_name e) st', w'))"

definition execute_tool_call ::
  "'w env \<Rightarrow> 'w orchestrator \<Rightarrow> 'w \<Rightarrow> tool_call
   \<Rightarrow> (exn + unit) \<times> 'w orchestrator \<times> 'w" where
  "execute_tool_call env st w tool_call =
     (let tool_name = tc_name tool_call;
          tool_args = tc_arguments tool_call;
          st1 = logged Debug (Action tool_name tool_args) st;
          run = (\<lambda>w1.
            case call_tool env st1 w1 tool_name tool_args of
              (r, st2, w2) \<Rightarrow>
                (Inr (),
                 (logged Debug (Observation r) st2)
                   \<lparr>context_manager :=
                      add_tool_result (context_manager st2) tool_name (json_dumps env r)\<rparr>,
                 w2))
      in if enabled (security_agent st1) then
           (case check_action (security_agent st1) w tool_name tool_args of
              (Inl e, w1) \<Rightarrow> (Inl e, st1, w1)
            | (Inr security_check, w1) \<Rightarrow>
                if \<not> safe security_check then
                  (if requires_confirmation security_check then
                     (let error_msg = msg_needs_confirmation @ reason security_check;
                          st2 = logged Warning (Security_alert error_msg) st1;
                          r = [(''success'', PBool False), (''error'', PStr error_msg),
                               (''requires_user_confirmation'', PBool True)]
                      in (Inr (),
                          st2\<lparr>context_manager :=
                                add_tool_result (context_manager st2) tool_name
                                  (json_dumps env r)\<rparr>,
                          w1))
                   else
                     (let r = [(''success'', PBool False),
                               (''error'', PStr (reason security_check))]
                      in (Inr (),
                          st1\<lparr>context_manager :=
                                add_tool_result (context_manager st1) tool_name
                                  (json_dumps env r)\<rparr>,
                          w1)))
                else run w1)
         else run w)"

text \<open>The \<open>for\<close> loop of \<open>_process_llm_response\<close>: an exception ends it.\<close>

fun execute_tool_calls ::
  "'w env \<Rightarrow> 'w orchestrator \<Rightarrow> 'w \<Rightarrow> tool_call list
   \<Rightarrow> (exn + unit) \<times> 'w orchestrator \<times> 'w" where
  "execute_tool_calls env st w [] = (Inr (), st, w)"
| "execute_tool_calls env st w (tool_call # rest) =
     (case execute_tool_call env st w tool_call of
        (Inl e, st', w') \<Rightarrow> (Inl e, st', w')
      | (Inr _, st', w') \<Rightarrow> execute_tool_calls env st' w' rest)"

definition process_llm_response ::
  "'w env \<Rightarrow> 'w orchestrator \<Rightarrow> 'w \<Rightarrow> response
   \<Rightarrow> (exn + unit) \<times> 'w orchestrator \<times> 'w" where
  "process_llm_response env st w response =
     (let st1 = (case resp_content response of
                   None \<Rightarrow> st
                 | Some c \<Rightarrow>
                     if c \<noteq> '''' then
                       (logged Debug (Thought c) st)
                         \<lparr>context_manager := add_assistant_message (context_manager st) c\<rparr>
                     else st)
      in if resp_tool_calls response = [] then
           (Inr (), logged Warning No_tools_called st1, w)
         else execute_tool_calls env st1 w (resp_tool_calls response))"

subsection \<open>The task loop\<close>

definition attempt_recovery ::
  "'w env \<Rightarrow> 'w orchestrator \<Rightarrow> exn \<Rightarrow> bool \<times> 'w orchestrator" where
  "attempt_recovery env st err =
     (let st1 = logged Warning (Recovery_attempt err) st in
      case error_recovery_prompt env err (current_step st1) of
        Inr recovery_prompt \<Rightarrow>
          (True, st1\<lparr>context_manager := add_user_message (context_manager st1) recovery_prompt\<rparr>)
      | Inl e \<Rightarrow> (False, logged Error (Recovery_error e) st1))"

text \<open>The body of the \<open>try\<close> block of the loop: observe, plan, decide, act.\<close>

definition step_try ::
  "'w env \<Rightarrow> string \<Rightarrow> 'w orchestrator \<Rightarrow> 'w \<Rightarrow> (exn + unit) \<times> 'w orchestrator \<times> 'w" where
  "step_try env task st w =
     (case get_page_info env w of
        (Inl e, w1) \<Rightarrow> (Inl e, st, w1)
      | (Inr page_info, w1) \<Rightarrow>
          (case extract_essential_info page_info of
             Inl e \<Rightarrow> (Inl e, st, w1)
           | Inr compressed_page_info \<Rightarrow>
               (case planning_prompt env task compressed_page_info of
                  Inl e \<Rightarrow> (Inl e, st, w1)
                | Inr prompt \<Rightarrow>
                    (case get_messages (add_user_message (context_manager st) prompt) True of
                       (messages, cm) \<Rightarrow>
                         (case chat_completion env w1 (deref cm messages) of
                            (Inl e, w2) \<Rightarrow> (Inl e, st\<lparr>context_manager := cm\<rparr>, w2)
                          | (Inr response, w2) \<Rightarrow>
                              process_llm_response env (st\<lparr>context_manager := cm\<rparr>) w2
                                response)))))"

definition failure :: "int \<Rightarrow> string \<Rightarrow> task_result" where
  "failure steps err =
     \<lparr>success = PBool False, result = PStr '''', steps_taken = steps, error = Some err\<rparr>"

text \<open>
  One pass of the body of the \<open>while\<close> loop. The first component is the \<open>TaskResult\<close> of
  the \<open>return\<close> inside the handler, if the pass takes it.
\<close>

definition loop_iteration ::
  "'w env \<Rightarrow> string \<Rightarrow> 'w orchestrator \<Rightarrow> 'w
   \<Rightarrow> task_result option \<times> 'w orchestrator \<times> 'w" where
  "loop_iteration env task st w =
     (let st1 = st\<lparr>current_step := current_step st + 1\<rparr>;
          st2 = logged Debug (Step (current_step st1) (max_steps st1)) st1
      in case step_try env task st2 w of
           (Inr _, st3, w3) \<Rightarrow> (None, st3, w3)
         | (Inl e, st3, w3) \<Rightarrow>
             (case attempt_recovery env (logged Error (Step_error (current_step st3) e) st3) e of
                (recovery_result, st4) \<Rightarrow>
                  if \<not> recovery_result
                  then (Some (failure (current_step st4) e), st4, w3)
                  else (None, st4, w3)))"

text \<open>The statements after the loop. A \<open>TaskResult\<close> object is truthy.\<close>

definition after_loop :: "'w orchestrator \<Rightarrow> task_result \<times> 'w orchestrator" where
  "after_loop st =
     (case (if task_completed st then task_result st else None) of
        Some r \<Rightarrow> (r, st)
      | None \<Rightarrow>
          if current_step st \<ge> max_steps st
          then (failure (current_step st) msg_step_limit,
                logged Warning (Step_limit_reached (max_steps st)) st)
          else (failure (current_step st) msg_unknown_error, st))"

text \<open>
  How one pass leaves the fields the loop condition reads: the budget and the counter
  stay, and the completion flag and record either stay or are set by a completion
  action of this step.
\<close>

definition evolves :: "'w orchestrator \<Rightarrow> 'w orchestrator \<Rightarrow> bool" where
  "evolves st st' =
     (max_steps st' = max_steps st \<and> current_step st' = current_step st \<and>
      security_agent st' = security_agent st \<and>
      (if task_completed st' = task_completed st \<and> task_result st' = task_result st then True
       else task_completed st' \<and>
            (case task_result st' of
               None \<Rightarrow> False
             | Some r \<Rightarrow> steps_taken r = current_step st \<and> error r = None)))"

section \<open>Invariants of one pass\<close>

lemma evolves_refl [simp]: "evolves st st"
  by (simp add: evolves_def)

lemma evolves_trans: "evolves a b \<Longrightarrow> evolves b c \<Longrightarrow> evolves a c"
  by (auto simp: evolves_def split: if_splits option.splits)

lemma evolves_logged [simp]: "evolves st (logged l m st') = evolves st st'"
  by (simp add: evolves_def logged_def)

lemma evolves_context_manager [simp]:
  "evolves st (st'\<lparr>context_manager := c\<rparr>) = evolves st st'"
  by (simp add: evolves_def)

lemma evolves_logged_left [simp]: "evolves (logged l m st) st' = evolves st st'"
  by (auto simp: evolves_def logged_def split: option.splits)

lemma evolves_context_manager_left [simp]:
  "evolves (st\<lparr>context_manager := c\<rparr>) st' = evolves st st'"
  by (auto simp: evolves_def split: option.splits)

lemma browser_branch_state:
  "browser_branch env st w method args reads = (r, st', w') \<Longrightarrow> st' = st"
  by (auto simp: browser_branch_def split: sum.splits prod.splits)

lemma call_tool_try_evolves:
  "call_tool_try env st w tool_name args = (r, st', w') \<Longrightarrow> evolves st st'"
  unfolding call_tool_try_def
  by (auto split: if_splits dest!: browser_branch_state simp: Let_def)
     (simp add: evolves_def)

lemma call_tool_evolves:
  "call_tool env st w tool_name args = (r, st', w') \<Longrightarrow> evolves st st'"
  by (auto simp: call_tool_def split: prod.splits sum.splits dest: call_tool_try_evolves)

lemma execute_tool_call_evolves:
  "execute_tool_call env st w tc = (r, st', w') \<Longrightarrow> evolves st st'"
  by (auto simp: execute_tool_call_def Let_def
           split: if_splits prod.splits sum.splits dest: call_tool_evolves)

lemma execute_tool_calls_evolves:
  "execute_tool_calls env st w tcs = (r, st', w') \<Longrightarrow> evolves st st'"
proof (induction tcs arbitrary: st w)
  case Nil
  then show ?case by simp
next
  case (Cons tc tcs)
  obtain r1 st1 w1 where one: "execute_tool_call env st w tc = (r1, st1, w1)"
    by (cases "execute_tool_call env st w tc") auto
  then have e1: "evolves st st1"
    by (rule execute_tool_call_evolves)
  show ?case
  proof (cases r1)
    case (Inl e)
    with Cons.prems one e1 show ?thesis by simp
  next
    case (Inr u)
    with Cons.prems one have "execute_tool_calls env st1 w1 tcs = (r, st', w')"
      by simp
    then have "evolves st1 st'" by (rule Cons.IH)
    with e1 show ?thesis by (rule evolves_trans)
  qed
qed

lemma process_llm_response_evolves:
  "process_llm_response env st w response = (r, st', w') \<Longrightarrow> evolves st st'"
  by (auto simp: process_llm_response_def Let_def
           split: if_splits option.splits dest!: execute_tool_calls_evolves)

lemma step_try_evolves:
  "step_try env task st w = (r, st', w') \<Longrightarrow> evolves st st'"
  by (auto simp: step_try_def split: prod.splits sum.splits
           dest!: process_llm_response_evolves)

lemma attempt_recovery_evolves:
  "attempt_recovery env st e = (b, st') \<Longrightarrow> evolves st st'"
  by (auto simp: attempt_recovery_def Let_def split: sum.splits)

lemma loop_iteration_evolves:
  assumes "loop_iteration env task st w = (out, st', w')"
  shows "evolves (st\<lparr>current_step := current_step st + 1\<rparr>) st'"
proof -
  let ?st2 = "logged Debug (Step (current_step st + 1) (max_steps st))
                (st\<lparr>current_step := current_step st + 1\<rparr>)"
  obtain r st3 w3 where s: "step_try env task ?st2 w = (r, st3, w3)"
    by (cases "step_try env task ?st2 w") auto
  then have e3: "evolves (st\<lparr>current_step := current_step st + 1\<rparr>) st3"
    using step_try_evolves [OF s] by simp
  show ?thesis
  proof (cases r)
    case (Inr u)
    with assms s e3 show ?thesis
      by (simp add: loop_iteration_def Let_def)
  next
    case (Inl e)
    obtain b st4 where a:
      "attempt_recovery env (logged Error (Step_error (current_step st3) e) st3) e = (b, st4)"
      by (cases "attempt_recovery env (logged Error (Step_error (current_step st3) e) st3) e")
    then have "evolves st3 st4"
      using attempt_recovery_evolves [OF a] by simp
    with e3 have "evolves (st\<lparr>current_step := current_step st + 1\<rparr>) st4"
      by (rule evolves_trans)
    with assms s a Inl show ?thesis
      by (auto simp: loop_iteration_def Let_def split: if_splits)
  qed
qed

lemma loop_iteration_counter:
  "loop_iteration env task st w = (out, st', w') \<Longrightarrow>
   current_step st' = current_step st + 1 \<and> max_steps st' = max_steps st"
  by (drule loop_iteration_evolves) (simp add: evolves_def)

section \<open>The loop and the task\<close>

function run_loop ::
  "'w env \<Rightarrow> string \<Rightarrow> 'w orchestrator \<Rightarrow> 'w \<Rightarrow> task_result \<times> 'w orchestrator \<times> 'w" where
  "run_loop env task st w =
     (if \<not> task_completed st \<and> current_step st < max_steps st then
        (case loop_iteration env task st w of
           (Some r, st', w') \<Rightarrow> (r, st', w')
         | (None, st', w') \<Rightarrow> run_loop env task st' w')
      else (case after_loop st of (r, st') \<Rightarrow> (r, st', w)))"
  by pat_completeness auto
termination
  by (relation "measure (\<lambda>(env, task, st, w). nat (max_steps st - current_step st))")
     (auto dest!: sym [of "(None, _, _)"] loop_iteration_counter)

declare run_loop.simps [simp del]

text \<open>The statements of \<open>execute_task\<close> before the loop; the identifier is \<open>str(uuid4())[:8]\<close>.\<close>

definition init_task ::
  "'w env \<Rightarrow> string \<Rightarrow> 'w orchestrator \<Rightarrow> 'w \<Rightarrow> 'w orchestrator \<times> 'w" where
  "init_task env task st w =
     (let st1 = logged Info (New_task task) st;
          st2 = st1\<lparr>task_completed := False, task_result := None, current_step := 0\<rparr>
      in case uuid4 env w of
           (u, w1) \<Rightarrow>
             (let st3 = st2\<lparr>task_id := take 8 u\<rparr>;
                  cm1 = set_system_message (context_manager st3) (system_prompt env);
                  cm2 = add_user_message cm1 (user_prompt_template env task)
              in (st3\<lparr>context_manager := cm2\<rparr>, w1)))"

definition execute_task ::
  "'w env \<Rightarrow> string \<Rightarrow> 'w orchestrator \<Rightarrow> 'w \<Rightarrow> task_result \<times> 'w orchestrator \<times> 'w" where
  "execute_task env task st w =
     (case init_task env task st w of (st0, w0) \<Rightarrow> run_loop env task st0 w0)"

text \<open>The constructor, from the configuration values and a fresh identifier.\<close>

definition new_orchestrator ::
  "string \<Rightarrow> context_manager \<Rightarrow> 'w security_agent \<Rightarrow> int \<Rightarrow> 'w orchestrator" where
  "new_orchestrator u cm sa budget =
     \<lparr>task_id = take 8 u, context_manager = cm, security_agent = sa, max_steps = budget,
      current_step = 0, task_completed = False, task_result = None,
      log = [(Info, Initialized (take 8 u))]\<rparr>"

section \<open>Properties of the task loop\<close>

lemma run_loop_stop:
  "task_completed st \<or> max_steps st \<le> current_step st \<Longrightarrow>
   run_loop env task st w = (case after_loop st of (r, st') \<Rightarrow> (r, st', w))"
  by (subst run_loop.simps) auto

lemma run_loop_step:
  "\<not> task_completed st \<Longrightarrow> current_step st < max_steps st \<Longrightarrow>
   run_loop env task st w =
     (case loop_iteration env task st w of
        (Some r, st', w') \<Rightarrow> (r, st', w')
      | (None, st', w') \<Rightarrow> run_loop env task st' w')"
  by (subst run_loop.simps) simp

lemma loop_iteration_Some:
  assumes "loop_iteration env task st w = (Some r, st', w')"
  shows "\<exists>e e'. r = failure (current_step st + 1) e \<and>
                 (Error, Step_error (current_step st + 1) e) \<in> set (log st') \<and>
                 last (log st') = (Error, Recovery_error e')"
proof -
  let ?st2 = "logged Debug (Step (current_step st + 1) (max_steps st))
                (st\<lparr>current_step := current_step st + 1\<rparr>)"
  obtain x st3 w3 where s: "step_try env task ?st2 w = (x, st3, w3)"
    by (cases "step_try env task ?st2 w") auto
  from step_try_evolves [OF s] have cs: "current_step st3 = current_step st + 1"
    by (simp add: evolves_def logged_def)
  from assms s obtain e where x: "x = Inl e"
    by (cases x) (auto simp: loop_iteration_def Let_def)
  with assms s cs show ?thesis
    by (auto simp: loop_iteration_def Let_def attempt_recovery_def logged_def
             split: sum.splits if_splits)
qed


lemma evolves_completed:
  "evolves st st' \<Longrightarrow> task_completed st \<longrightarrow> task_result st \<noteq> None \<Longrightarrow>
   task_completed st' \<longrightarrow> task_result st' \<noteq> None"
  by (auto simp: evolves_def split: if_splits option.splits)


lemma init_task_fields:
  assumes "init_task env task st w = (st0, w0)"
  shows "max_steps st0 = max_steps st" and "current_step st0 = 0"
    and "\<not> task_completed st0" and "task_result st0 = None"
    and "security_agent st0 = security_agent st"
  using assms
  by (auto simp: init_task_def Let_def logged_def split: prod.splits)

lemma run_loop_steps:
  assumes "0 \<le> current_step st" and "current_step st \<le> max_steps st"
    and "\<forall>r0. task_result st = Some r0 \<longrightarrow> 0 \<le> steps_taken r0 \<and> steps_taken r0 \<le> current_step st"
    and "run_loop env task st w = (r, st', w')"
  shows "0 \<le> steps_taken r \<and> steps_taken r \<le> max_steps st"
  using assms
proof (induction env task st w rule: run_loop.induct)
  case (1 env task st w)
  show ?case
  proof (cases "\<not> task_completed st \<and> current_step st < max_steps st")
    case False
    then have stop: "task_completed st \<or> max_steps st \<le> current_step st"
      by auto
    with "1.prems" show ?thesis
      by (auto simp: run_loop_stop after_loop_def failure_def split: option.splits if_splits)
  next
    case True
    obtain out st1 w1 where it: "loop_iteration env task st w = (out, st1, w1)"
      by (cases "loop_iteration env task st w") auto
    note ev = loop_iteration_evolves [OF it]
    show ?thesis
    proof (cases out)
      case (Some r1)
      with True it "1.prems"(4) have "r = r1"
        by (simp add: run_loop_step)
      with loop_iteration_Some [of env task st w r1 st1 w1] it Some True "1.prems"(1)
      show ?thesis
        by (auto simp: failure_def)
    next
      case None
      with True it "1.prems"(4) have next_run: "run_loop env task st1 w1 = (r, st', w')"
        by (simp add: run_loop_step)
      from ev have cs: "current_step st1 = current_step st + 1" "max_steps st1 = max_steps st"
        by (simp_all add: evolves_def)
      have a: "0 \<le> current_step st1" and b: "current_step st1 \<le> max_steps st1"
        using cs True "1.prems"(1) by auto
      have c: "\<forall>r0. task_result st1 = Some r0 \<longrightarrow>
                 0 \<le> steps_taken r0 \<and> steps_taken r0 \<le> current_step st1"
        using ev cs "1.prems"(1,3)
        by (auto simp: evolves_def split: if_splits option.splits)
      from "1.IH" [OF True it [symmetric] None refl a b c next_run] cs
      show ?thesis by simp
    qed
  qed
qed

text \<open>
  Claim C1, as the code has it. When the configured step budget is not negative, the
  \<open>TaskResult\<close> that \<open>execute_task\<close> returns reports between 0 and \<open>max_steps\<close> steps.
  (\<open>max_steps\<close> is an unvalidated integer of the configuration; see the counterexample
  for a negative one.)
\<close>

theorem steps_taken_within_budget:
  assumes "0 \<le> max_steps st"
  shows "0 \<le> steps_taken (fst (execute_task env task st w)) \<and>
         steps_taken (fst (execute_task env task st w)) \<le> max_steps st"
proof -
  obtain st0 w0 where i: "init_task env task st w = (st0, w0)"
    by (cases "init_task env task st w")
  obtain r st' w' where run: "run_loop env task st0 w0 = (r, st', w')"
    by (cases "run_loop env task st0 w0")
  note f = init_task_fields [OF i]
  have "0 \<le> steps_taken r \<and> steps_taken r \<le> max_steps st0"
    by (rule run_loop_steps [OF _ _ _ run]) (use f assms in simp_all)
  with f i run show ?thesis by (simp add: execute_task_def)
qed

lemma execute_task_no_budget:
  assumes "max_steps st \<le> 0"
  shows "fst (execute_task env task st w) = failure 0 msg_step_limit"
proof -
  obtain st0 w0 where i: "init_task env task st w = (st0, w0)"
    by (cases "init_task env task st w")
  note f = init_task_fields [OF i]
  from f assms have "run_loop env task st0 w0
      = (case after_loop st0 of (r, st') \<Rightarrow> (r, st', w0))"
    by (intro run_loop_stop) simp
  with i f assms show ?thesis
    by (simp add: execute_task_def after_loop_def split: prod.splits)
qed

lemma loop_iteration_failed_recovery:
  assumes "get_page_info env w = (Inl e, w1)"
    and "error_recovery_prompt env e (current_step st + 1) = Inl e'"
  shows "fst (loop_iteration env task st w) = Some (failure (current_step st + 1) e)"
  using assms
  by (simp add: loop_iteration_def step_try_def attempt_recovery_def logged_def Let_def)

lemma execute_task_failed_recovery:
  assumes "0 < max_steps st"
    and "\<And>w0. get_page_info env w0 = (Inl e, w0)"
    and "\<And>n. error_recovery_prompt env e n = Inl e'"
  shows "fst (execute_task env task st w) = failure 1 e"
proof -
  obtain st0 w0 where i: "init_task env task st w = (st0, w0)"
    by (cases "init_task env task st w")
  note f = init_task_fields [OF i]
  have "fst (loop_iteration env task st0 w0) = Some (failure (current_step st0 + 1) e)"
    by (rule loop_iteration_failed_recovery) (rule assms)+
  then obtain st1 w1 where
    "loop_iteration env task st0 w0 = (Some (failure (current_step st0 + 1) e), st1, w1)"
    by (cases "loop_iteration env task st0 w0") auto
  with i f assms(1) show ?thesis
    by (simp add: execute_task_def run_loop_step)
qed

section \<open>A concrete run\<close>

text \<open>
  An environment in which the page analysis raises an exception without a message and
  the recovery prompt cannot be built, and a freshly constructed orchestrator with a
  given step budget.
\<close>

definition failing_env :: "unit env" where
  "failing_env =
     \<lparr>system_prompt = ''You are a browser agent.'',
      user_prompt_template = (\<lambda>task. ''Task: '' @ task),
      planning_prompt = (\<lambda>task info. Inr (''Plan the next step of: '' @ task)),
      error_recovery_prompt = (\<lambda>e n. Inl ''template failure''),
      json_dumps = (\<lambda>d. ''{}''),
      uuid4 = (\<lambda>w. (''0123456789abcdef'', w)),
      get_page_info = (\<lambda>w. (Inl '''', w)),
      chat_completion = (\<lambda>w ms. (Inr \<lparr>resp_content = None, resp_tool_calls = []\<rparr>, w)),
      browser_agent = (\<lambda>w method vs. (Inr [(''success'', PBool True)], w))\<rparr>"

definition fresh_orchestrator :: "int \<Rightarrow> 'w orchestrator" where
  "fresh_orchestrator budget =
     new_orchestrator ''0123456789abcdef'' (new_context_manager 16000 25 length)
       \<lparr>enabled = True, destructive_patterns = [''delete''],
        user_confirmation_callback = None\<rparr> budget"

lemma max_steps_fresh [simp]: "max_steps (fresh_orchestrator budget) = budget"
  by (simp add: fresh_orchestrator_def new_orchestrator_def)

lemma failing_env_fields [simp]:
  "get_page_info failing_env w = (Inl '''', w)"
  "error_recovery_prompt failing_env e n = Inl ''template failure''"
  by (simp_all add: failing_env_def)

text \<open>Claim C1 with a budget of one step: the only step fails, and one step is reported.\<close>

theorem steps_taken_within_budget_witness:
  "0 \<le> max_steps (fresh_orchestrator 1 :: unit orchestrator) \<and>
   steps_taken (fst (execute_task failing_env ''open example.com'' (fresh_orchestrator 1) ())) = 1 \<and>
   0 \<le> steps_taken (fst (execute_task failing_env ''open example.com'' (fresh_orchestrator 1) ())) \<and>
   steps_taken (fst (execute_task failing_env ''open example.com'' (fresh_orchestrator 1) ()))
     \<le> max_steps (fresh_orchestrator 1 :: unit orchestrator)"
proof -
  have h: "0 \<le> max_steps (fresh_orchestrator 1 :: unit orchestrator)"
    by simp
  have v: "fst (execute_task failing_env ''open example.com'' (fresh_orchestrator 1) ())
             = failure 1 ''''"
    by (rule execute_task_failed_recovery) simp_all
  from steps_taken_within_budget [OF h, of failing_env "''open example.com''" "()"]
  show ?thesis
    by (simp add: v failure_def)
qed

text \<open>
  Claim C1 as stated fails for a negative budget: with \<open>max_steps = -1\<close> the loop is not
  entered and the result reports 0 steps, which is more than the budget.
\<close>

theorem steps_taken_within_budget_counterexample:
  "steps_taken (fst (execute_task failing_env ''open example.com'' (fresh_orchestrator (- 1)) ())) = 0
   \<and> \<not> steps_taken (fst (execute_task failing_env ''open example.com'' (fresh_orchestrator (- 1)) ()))
        \<le> max_steps (fresh_orchestrator (- 1) :: unit orchestrator)"
proof -
  have "fst (execute_task failing_env ''open example.com'' (fresh_orchestrator (- 1)) ())
          = failure 0 msg_step_limit"
    by (rule execute_task_no_budget) simp
  then show ?thesis
    by (simp add: failure_def)
qed




section \<open>One step of the loop\<close>

lemma execute_tool_calls_counter:
  "current_step (fst (snd (execute_tool_calls env st w tcs))) = current_step st"
proof -
  obtain r st' w' where e: "execute_tool_calls env st w tcs = (r, st', w')"
    by (cases "execute_tool_calls env st w tcs")
  from execute_tool_calls_evolves [OF e] e show ?thesis
    by (simp add: evolves_def)
qed

lemma process_llm_response_no_tools:
  assumes "resp_tool_calls response = []"
  shows "process_llm_response env st w response =
     (Inr (),
      logged Warning No_tools_called
        (case resp_content response of
           None \<Rightarrow> st
         | Some c \<Rightarrow>
             if c \<noteq> '''' then
               (logged Debug (Thought c) st)
                 \<lparr>context_manager := add_assistant_message (context_manager st) c\<rparr>
             else st),
      w)"
  using assms by (simp add: process_llm_response_def Let_def)

lemma loop_iteration_no_tools:
  assumes "get_page_info env w = (Inr page_info, w1)"
    and "extract_essential_info page_info = Inr info"
    and "planning_prompt env task info = Inr prompt"
    and "chat_completion env w1
           (deref (snd (get_messages (add_user_message (context_manager st) prompt) True))
              (fst (get_messages (add_user_message (context_manager st) prompt) True)))
         = (Inr response, w2)"
    and "resp_tool_calls response = []"
  shows "fst (loop_iteration env task st w) = None"
    and "snd (snd (loop_iteration env task st w)) = w2"
    and "log (fst (snd (loop_iteration env task st w))) =
           log st @ [(Debug, Step (current_step st + 1) (max_steps st))]
           @ (case resp_content response of
                None \<Rightarrow> []
              | Some c \<Rightarrow> if c \<noteq> '''' then [(Debug, Thought c)] else [])
           @ [(Warning, No_tools_called)]"
    and "task_completed (fst (snd (loop_iteration env task st w))) = task_completed st"
    and "task_result (fst (snd (loop_iteration env task st w))) = task_result st"
  using assms
  by (simp_all add: loop_iteration_def step_try_def Let_def logged_def split_beta
      process_llm_response_no_tools split: option.splits)

text \<open>
  Claim C8. Every pass of the loop body leaves the step counter exactly one higher,
  whatever the collaborators return and however the pass ends; executing the action
  requests of a response, however many, does not touch the counter. When the
  decision-maker returns no action request, the pass does not return from the loop:
  it records the step, the thought if there is one, and a warning, no error; the
  completion flag and record stay as they were, and the loop goes on with the state
  the pass left.
\<close>

theorem step_counter_incremented_once:
  "current_step (fst (snd (loop_iteration env task st w))) = current_step st + 1 \<and>
   current_step (fst (snd (execute_tool_calls env st w tool_calls))) = current_step st \<and>
   (\<forall>page_info w1 info prompt response w2.
      get_page_info env w = (Inr page_info, w1) \<and>
      extract_essential_info page_info = Inr info \<and>
      planning_prompt env task info = Inr prompt \<and>
      chat_completion env w1
        (deref (snd (get_messages (add_user_message (context_manager st) prompt) True))
           (fst (get_messages (add_user_message (context_manager st) prompt) True)))
        = (Inr response, w2) \<and>
      resp_tool_calls response = [] \<longrightarrow>
      fst (loop_iteration env task st w) = None \<and>
      snd (snd (loop_iteration env task st w)) = w2 \<and>
      log (fst (snd (loop_iteration env task st w))) =
        log st @ [(Debug, Step (current_step st + 1) (max_steps st))]
        @ (case resp_content response of
             None \<Rightarrow> []
           | Some c \<Rightarrow> if c \<noteq> '''' then [(Debug, Thought c)] else [])
        @ [(Warning, No_tools_called)] \<and>
      task_completed (fst (snd (loop_iteration env task st w))) = task_completed st \<and>
      task_result (fst (snd (loop_iteration env task st w))) = task_result st \<and>
      (\<not> task_completed st \<and> current_step st < max_steps st \<longrightarrow>
       run_loop env task st w = run_loop env task (fst (snd (loop_iteration env task st w))) w2))"
proof -
  obtain out st' w' where it: "loop_iteration env task st w = (out, st', w')"
    by (cases "loop_iteration env task st w")
  from loop_iteration_counter [OF it] it
  have one: "current_step (fst (snd (loop_iteration env task st w))) = current_step st + 1"
    by simp
  have idle: "fst (loop_iteration env task st w) = None \<and>
      snd (snd (loop_iteration env task st w)) = w2 \<and>
      log (fst (snd (loop_iteration env task st w))) =
        log st @ [(Debug, Step (current_step st + 1) (max_steps st))]
        @ (case resp_content response of
             None \<Rightarrow> []
           | Some c \<Rightarrow> if c \<noteq> '''' then [(Debug, Thought c)] else [])
        @ [(Warning, No_tools_called)] \<and>
      task_completed (fst (snd (loop_iteration env task st w))) = task_completed st \<and>
      task_result (fst (snd (loop_iteration env task st w))) = task_result st \<and>
      (\<not> task_completed st \<and> current_step st < max_steps st \<longrightarrow>
       run_loop env task st w = run_loop env task (fst (snd (loop_iteration env task st w))) w2)"
    if a: "get_page_info env w = (Inr page_info, w1)"
      "extract_essential_info page_info = Inr info"
      "planning_prompt env task info = Inr prompt"
      "chat_completion env w1
        (deref (snd (get_messages (add_user_message (context_manager st) prompt) True))
           (fst (get_messages (add_user_message (context_manager st) prompt) True)))
        = (Inr response, w2)"
      "resp_tool_calls response = []"
    for page_info w1 info prompt response w2
  proof -
    note n = loop_iteration_no_tools [OF a]
    from n(1,2) it have "out = None" "w' = w2"
      by simp_all
    with it have "\<not> task_completed st \<and> current_step st < max_steps st \<longrightarrow>
        run_loop env task st w = run_loop env task st' w2"
      by (simp add: run_loop_step)
    with it n show ?thesis
      by simp
  qed
  from one execute_tool_calls_counter [of env st w tool_calls] idle show ?thesis
    by blast
qed

text \<open>
  An environment in which the page analysis succeeds and the decision-maker answers
  without text and without action requests.
\<close>

definition idle_env :: "unit env" where
  "idle_env =
     \<lparr>system_prompt = ''You are a browser agent.'',
      user_prompt_template = (\<lambda>task. ''Task: '' @ task),
      planning_prompt = (\<lambda>task info. Inr (''Plan the next step of: '' @ task)),
      error_recovery_prompt = (\<lambda>e n. Inr (''Recover from: '' @ e)),
      json_dumps = (\<lambda>d. ''{}''),
      uuid4 = (\<lambda>w. (''0123456789abcdef'', w)),
      get_page_info = (\<lambda>w. (Inr [(''url'', PStr ''about:blank'')], w)),
      chat_completion = (\<lambda>w ms. (Inr \<lparr>resp_content = None, resp_tool_calls = []\<rparr>, w)),
      browser_agent = (\<lambda>w method vs. (Inr [(''success'', PBool True)], w))\<rparr>"

text \<open>Claim C8 on the first step of a fresh orchestrator in that environment.\<close>

theorem step_counter_incremented_once_witness:
  "current_step (fresh_orchestrator 3 :: unit orchestrator) = 0 \<and>
   current_step (fst (snd (loop_iteration idle_env ''open example.com'' (fresh_orchestrator 3) ()))) = 1 \<and>
   fst (loop_iteration idle_env ''open example.com'' (fresh_orchestrator 3) ()) = None \<and>
   log (fst (snd (loop_iteration idle_env ''open example.com'' (fresh_orchestrator 3) ())))
     = [(Info, Initialized ''01234567''), (Debug, Step 1 3), (Warning, No_tools_called)] \<and>
   \<not> task_completed (fst (snd (loop_iteration idle_env ''open example.com'' (fresh_orchestrator 3) ())))"
proof -
  have h: "get_page_info idle_env () = (Inr [(''url'', PStr ''about:blank'')], ()) \<and>
      extract_essential_info [(''url'', PStr ''about:blank'')]
        = Inr [(''url'', PStr ''about:blank''), (''title'', PStr ''''),
               (''interactive_elements'', PList [])] \<and>
      planning_prompt idle_env ''open example.com''
        [(''url'', PStr ''about:blank''), (''title'', PStr ''''),
         (''interactive_elements'', PList [])]
        = Inr ''Plan the next step of: open example.com'' \<and>
      chat_completion idle_env ()
        (deref (snd (get_messages (add_user_message
                       (context_manager (fresh_orchestrator 3 :: unit orchestrator))
                       ''Plan the next step of: open example.com'') True))
           (fst (get_messages (add_user_message
                       (context_manager (fresh_orchestrator 3 :: unit orchestrator))
                       ''Plan the next step of: open example.com'') True)))
        = (Inr \<lparr>resp_content = None, resp_tool_calls = []\<rparr>, ()) \<and>
      resp_tool_calls \<lparr>resp_content = None, resp_tool_calls = []\<rparr> = []"
    by (simp add: idle_env_def extract_essential_info_def get_default_def slice_100_def)
  have s: "current_step (fresh_orchestrator 3 :: unit orchestrator) = 0"
    "max_steps (fresh_orchestrator 3 :: unit orchestrator) = 3"
    "log (fresh_orchestrator 3 :: unit orchestrator) = [(Info, Initialized ''01234567'')]"
    "\<not> task_completed (fresh_orchestrator 3 :: unit orchestrator)"
    by (simp_all add: fresh_orchestrator_def new_orchestrator_def)
  from step_counter_incremented_once
         [of idle_env "''open example.com''" "fresh_orchestrator 3" "()" "[]"] h
  show ?thesis
    by (simp add: s)
qed

section \<open>The completion action\<close>

lemma is_destructive_action_other:
  "action_name \<noteq> ''click'' \<Longrightarrow> action_name \<noteq> ''type_text'' \<Longrightarrow>
   is_destructive_action patterns action_name parameters = Inr (False, '''')"
  by (simp add: is_destructive_action_def)

lemma execute_tool_call_passed:
  assumes "\<not> enabled (security_agent st) \<or>
           is_destructive_action (destructive_patterns (security_agent st)) (tc_name tool_call)
             (tc_arguments tool_call) = Inr (False, '''')"
    and "call_tool env (logged Debug (Action (tc_name tool_call) (tc_arguments tool_call)) st) w
           (tc_name tool_call) (tc_arguments tool_call) = (r, st2, w2)"
  shows "execute_tool_call env st w tool_call =
     (Inr (),
      (logged Debug (Observation r) st2)
        \<lparr>context_manager :=
           add_tool_result (context_manager st2) (tc_name tool_call) (json_dumps env r)\<rparr>,
      w2)"
  using assms
  by (auto simp: execute_tool_call_def Let_def logged_def check_action_def)

lemma call_tool_task_complete:
  "call_tool env st w ''task_complete'' args =
     ([(''success'', PBool True), (''message'', PStr msg_task_done)],
      logged Info (Task_done (get_default args ''result'' (PStr '''')))
        (st\<lparr>task_completed := True,
            task_result := Some \<lparr>success = get_default args ''success'' (PBool True),
                                  result = get_default args ''result'' (PStr ''''),
                                  steps_taken = current_step st,
                                  error = None\<rparr>\<rparr>),
      w)"
  by (simp add: call_tool_def call_tool_try_def)

lemma run_loop_completed:
  assumes "task_completed st" and "task_result st = Some r"
  shows "run_loop env task st w = (r, st, w)"
  using assms by (simp add: run_loop_stop after_loop_def)

lemma execute_tool_calls_completed:
  assumes "task_completed st"
  shows "task_completed (fst (snd (execute_tool_calls env st w tcs)))"
proof -
  obtain r st' w' where e: "execute_tool_calls env st w tcs = (r, st', w')"
    by (cases "execute_tool_calls env st w tcs")
  from execute_tool_calls_evolves [OF e] assms e show ?thesis
    by (auto simp: evolves_def split: if_splits)
qed

text \<open>
  Claim C10. A \<open>task_complete\<close> request passes the security check, sets the completion
  flag and records a \<open>TaskResult\<close> whose \<open>success\<close> is the argument of that name, or
  \<open>True\<close> when the argument is absent, and whose \<open>result\<close> is the argument of that name,
  or the empty string when it is absent. The flag stays set while the remaining
  requests of the same response are executed, and with the flag set the loop runs no
  further step: it returns the recorded result.
\<close>

theorem task_complete_defaults:
  "let request = \<lparr>tc_name = ''task_complete'', tc_arguments = args\<rparr>;
       st' = fst (snd (execute_tool_call env st w request));
       recorded = \<lparr>success = (case map_of args ''success'' of None \<Rightarrow> PBool True | Some v \<Rightarrow> v),
                   result = (case map_of args ''result'' of None \<Rightarrow> PStr '''' | Some v \<Rightarrow> v),
                   steps_taken = current_step st, error = None\<rparr>
   in fst (execute_tool_call env st w request) = Inr () \<and>
      task_completed st' \<and>
      task_result st' = Some recorded \<and>
      (map_of args ''success'' = None \<longrightarrow> success recorded = PBool True) \<and>
      (map_of args ''result'' = None \<longrightarrow> result recorded = PStr '''') \<and>
      task_completed (fst (snd (execute_tool_calls env st' w' rest))) \<and>
      run_loop env task st' w' = (recorded, st', w')"
proof -
  let ?request = "\<lparr>tc_name = ''task_complete'', tc_arguments = args\<rparr>"
  let ?recorded = "\<lparr>success = get_default args ''success'' (PBool True),
                    result = get_default args ''result'' (PStr ''''),
                    steps_taken = current_step st, error = None\<rparr>"
  have gate: "\<not> enabled (security_agent st) \<or>
      is_destructive_action (destructive_patterns (security_agent st)) (tc_name ?request)
        (tc_arguments ?request) = Inr (False, '''')"
    by (simp add: is_destructive_action_other)
  have call: "call_tool env (logged Debug (Action (tc_name ?request) (tc_arguments ?request)) st)
      w (tc_name ?request) (tc_arguments ?request) =
      ([(''success'', PBool True), (''message'', PStr msg_task_done)],
       logged Info (Task_done (get_default args ''result'' (PStr '''')))
         ((logged Debug (Action ''task_complete'' args) st)
            \<lparr>task_completed := True,
             task_result := Some \<lparr>success = get_default args ''success'' (PBool True),
                                   result = get_default args ''result'' (PStr ''''),
                                   steps_taken = current_step
                                     (logged Debug (Action ''task_complete'' args) st),
                                   error = None\<rparr>\<rparr>),
       w)"
    by (simp add: call_tool_task_complete)
  note e = execute_tool_call_passed [OF gate call]
  have r: "fst (execute_tool_call env st w ?request) = Inr ()"
    by (simp add: e)
  have c: "task_completed (fst (snd (execute_tool_call env st w ?request)))"
    by (simp add: e logged_def)
  have t: "task_result (fst (snd (execute_tool_call env st w ?request))) = Some ?recorded"
    by (simp add: e logged_def)
  have d: "?recorded =
      \<lparr>success = (case map_of args ''success'' of None \<Rightarrow> PBool True | Some v \<Rightarrow> v),
       result = (case map_of args ''result'' of None \<Rightarrow> PStr '''' | Some v \<Rightarrow> v),
       steps_taken = current_step st, error = None\<rparr>"
    by (simp add: get_default_def)
  from c t
  have "run_loop env task (fst (snd (execute_tool_call env st w ?request))) w' =
      (?recorded, fst (snd (execute_tool_call env st w ?request)), w')"
    by (rule run_loop_completed)
  with r c t execute_tool_calls_completed [OF c, of env w' rest] show ?thesis
    unfolding Let_def d by simp
qed

text \<open>Claim C10 on a request without arguments, at step 0 of a fresh orchestrator.\<close>

theorem task_complete_defaults_witness:
  "map_of ([] :: pydict) ''success'' = None \<and> map_of ([] :: pydict) ''result'' = None \<and>
   task_completed (fst (snd (execute_tool_call idle_env (fresh_orchestrator 3) ()
      \<lparr>tc_name = ''task_complete'', tc_arguments = []\<rparr>))) \<and>
   task_result (fst (snd (execute_tool_call idle_env (fresh_orchestrator 3) ()
      \<lparr>tc_name = ''task_complete'', tc_arguments = []\<rparr>)))
     = Some \<lparr>success = PBool True, result = PStr '''', steps_taken = 0, error = None\<rparr> \<and>
   fst (run_loop idle_env ''open example.com''
      (fst (snd (execute_tool_call idle_env (fresh_orchestrator 3) ()
         \<lparr>tc_name = ''task_complete'', tc_arguments = []\<rparr>))) ())
     = \<lparr>success = PBool True, result = PStr '''', steps_taken = 0, error = None\<rparr>"
proof -
  have s: "current_step (fresh_orchestrator 3 :: unit orchestrator) = 0"
    by (simp add: fresh_orchestrator_def new_orchestrator_def)
  from task_complete_defaults
         [where args = "[]" and env = idle_env and st = "fresh_orchestrator 3" and w = "()"
            and w' = "()" and rest = "[]" and task = "''open example.com''"]
  show ?thesis
    by (simp add: Let_def s)
qed

section \<open>The security gate in front of an action\<close>






text \<open>
  An environment whose world is the list of the calls made so far: every browser
  action and every request to the decision-maker is recorded in it.
\<close>

datatype event = Browser_call string "pyval list" | Decision_request "message list"

definition recording_env :: "event list env" where
  "recording_env =
     \<lparr>system_prompt = ''You are a browser agent.'',
      user_prompt_template = (\<lambda>task. ''Task: '' @ task),
      planning_prompt = (\<lambda>task info. Inr (''Plan the next step of: '' @ task)),
      error_recovery_prompt = (\<lambda>e n. Inr (''Recover from: '' @ e)),
      json_dumps = (\<lambda>d. ''{}''),
      uuid4 = (\<lambda>w. (''0123456789abcdef'', w)),
      get_page_info = (\<lambda>w. (Inr [(''url'', PStr ''about:blank'')], w)),
      chat_completion =
        (\<lambda>w ms. (Inr \<lparr>resp_content = None, resp_tool_calls = []\<rparr>, w @ [Decision_request ms])),
      browser_agent =
        (\<lambda>w method vs. (Inr [(''success'', PBool True)], w @ [Browser_call method vs]))\<rparr>"




section \<open>Dispatch of unknown and incomplete requests\<close>


definition required_arguments :: "string \<Rightarrow> string list" where
  "required_arguments tool_name =
     (if tool_name = ''click'' then [''selector'', ''reason'']
      else if tool_name = ''type_text'' then [''selector'', ''text'', ''reason'']
      else if tool_name = ''navigate'' then [''url'', ''reason'']
      else if tool_name = ''scroll'' then [''direction'', ''amount'']
      else if tool_name = ''extract_text'' then [''selector'']
      else if tool_name = ''wait'' then [''seconds'', ''reason'']
      else if tool_name = ''press_key'' then [''key'', ''reason'']
      else if tool_name = ''task_complete'' then [''result'', ''success'']
      else if tool_name = ''ask_user'' then [''question'']
      else [])"

text \<open>
  The arguments that the branch of \<open>_call_tool\<close> for a tool reads as \<open>args[k]\<close>, in the
  order it reads them; every other argument is read with \<open>args.get\<close> and a default.
\<close>

definition subscripted_arguments :: "string \<Rightarrow> string list" where
  "subscripted_arguments tool_name =
     (if tool_name = ''click'' then [''selector'']
      else if tool_name = ''type_text'' then [''selector'', ''text'']
      else if tool_name = ''navigate'' then [''url'']
      else if tool_name = ''scroll'' then [''direction'']
      else if tool_name = ''extract_text'' then [''selector'']
      else if tool_name = ''wait'' then [''seconds'']
      else if tool_name = ''press_key'' then [''key'']
      else [])"

lemma subscripted_arguments_required:
  "set (subscripted_arguments tool_name) \<subseteq> set (required_arguments tool_name)"
  by (simp add: subscripted_arguments_def required_arguments_def)






section \<open>The buffer at the start of a task\<close>

text \<open>
  The statements of \<open>execute_task\<close> before the loop allocate a new system message and
  append the task message to the history deque; \<open>clear_history\<close> is not among them.
\<close>

lemma init_task_history:
  "message_history (context_manager (fst (init_task env task st w))) =
     deque_append (sliding_window_size (context_manager st) * 2)
       (message_history (context_manager st)) (Suc (next_addr (context_manager st)))"
  by (simp add: init_task_def Let_def logged_def split_beta set_system_message_def
      add_user_message_def append_message_def alloc_def)

text \<open>
  Claim C3, evaluated on two tasks run one after the other on the same orchestrator,
  with a budget of one step each, in the environment that records every request to the
  decision-maker. The system message is re-seeded, but the history is not cleared: the
  request of the first step of the second task still holds the task message and the
  planning prompt of the first task.
\<close>

theorem second_task_sees_first_task:
  "let first = execute_task recording_env ''open example.com'' (fresh_orchestrator 1) [];
       second = execute_task recording_env ''check the weather'' (fst (snd first)) (snd (snd first))
   in snd (snd second) =
        [Decision_request
           [\<lparr>role = ''system'', content = ''You are a browser agent.''\<rparr>,
            \<lparr>role = ''user'', content = ''Task: open example.com''\<rparr>,
            \<lparr>role = ''user'', content = ''Plan the next step of: open example.com''\<rparr>],
         Decision_request
           [\<lparr>role = ''system'', content = ''You are a browser agent.''\<rparr>,
            \<lparr>role = ''user'', content = ''Task: open example.com''\<rparr>,
            \<lparr>role = ''user'', content = ''Plan the next step of: open example.com''\<rparr>,
            \<lparr>role = ''user'', content = ''Task: check the weather''\<rparr>,
            \<lparr>role = ''user'', content = ''Plan the next step of: check the weather''\<rparr>]]"
  by code_simp

end
